theory Spec2Isabelle
  imports Complex_Main
begin

section \<open>Mole balances: the notebook \<open>rxns-book/mole-balance.ipynb\<close>\<close>

text \<open>
  The notebook is a sequence of code cells. Each cell assigns its constants to module-level
  names, defines one or two small functions that read those names when they are called,
  hands a function to a routine of a numerical library and prints one number.

  In the cells Python floats are carried as real numbers, which is enough for what flows
  from one cell to another. The code that is plain float arithmetic, the closed form of the
  algebra cell and the residual \<open>func\<close> of the solver cell, is also given with every
  operation rounded to binary64, and what is stated of its values is stated of those.
  Python's \<open>V = 10\<close> is an integer that the arithmetic promotes to a float; it is the real
  10 here.
\<close>

subsection \<open>Exceptions\<close>

text \<open>
  The exceptions the cells can raise, and \<open>NonFinite\<close>: where numpy divides by zero it gives
  \<open>inf\<close> or \<open>nan\<close> with a warning and the program goes on; the reals have neither value, so
  the model stops there.
\<close>

datatype py_error = NameError | ZeroDivisionError | IndexError | TypeError | NonFinite

type_synonym 'a py = "py_error + 'a"

definition py_bind :: "'a py \<Rightarrow> ('a \<Rightarrow> 'b py) \<Rightarrow> 'b py" where
  "py_bind m f = (case m of Inl e \<Rightarrow> Inl e | Inr v \<Rightarrow> f v)"

subsection \<open>binary64\<close>

text \<open>
  IEEE 754 double precision, the arithmetic of a Python float: the exact result of an
  operation rounded to the nearest number \<open>m * 2 ^ (e - 52)\<close> with \<open>\<bar>m\<bar> < 2 ^ 53\<close>, ties going
  to the even \<open>m\<close>; below \<open>2 ^ - 1022\<close> the spacing stays \<open>2 ^ - 1074\<close>. Overflow to
  infinity is not modelled: the statements below keep every operand within \<open>in_range\<close>,
  at most \<open>2 ^ 300\<close> in magnitude, so that a product of three operands stays below
  \<open>2 ^ 1024\<close>. \<open>is_b64\<close> holds of the numbers rounding leaves unchanged, the doubles.
\<close>

definition rne :: "real \<Rightarrow> int" where
  "rne x = (let f = \<lfloor>x\<rfloor>; r = x - of_int f in
     if r < 1 / 2 then f else if 1 / 2 < r then f + 1 else if even f then f else f + 1)"

definition b64_round :: "real \<Rightarrow> real" where
  "b64_round x = (if x = 0 then 0 else
     let e = max \<lfloor>log 2 \<bar>x\<bar>\<rfloor> (- 1022); u = 2 powi (e - 52) in of_int (rne (x / u)) * u)"

definition b64_add :: "real \<Rightarrow> real \<Rightarrow> real" where
  "b64_add x y = b64_round (x + y)"

definition b64_sub :: "real \<Rightarrow> real \<Rightarrow> real" where
  "b64_sub x y = b64_round (x - y)"

definition b64_mul :: "real \<Rightarrow> real \<Rightarrow> real" where
  "b64_mul x y = b64_round (x * y)"

definition b64_div :: "real \<Rightarrow> real \<Rightarrow> real py" where
  "b64_div x y = (if y = 0 then Inl ZeroDivisionError else Inr (b64_round (x / y)))"

definition is_b64 :: "real \<Rightarrow> bool" where
  "is_b64 x = (b64_round x = x)"

definition in_range :: "real \<Rightarrow> bool" where
  "in_range x = (\<bar>x\<bar> \<le> 2 ^ 300)"

subsection \<open>Solving the problem with algebra (CSTR)\<close>

text \<open>
  \<^verbatim>\<open>Ca_exit = Fa0 / (v0 + V * k)\<close>, over the reals and in binary64 with the cell's
  literals \<open>k = 0.23\<close>, \<open>Fa0 = 1.0\<close>, \<open>v0 = 2.5\<close>, \<open>V = 10\<close>. A float division by zero raises.
\<close>

definition Ca_exit :: "real \<Rightarrow> real \<Rightarrow> real \<Rightarrow> real \<Rightarrow> real py" where
  "Ca_exit k Fa0 v0 V = (if v0 + V * k = 0 then Inl ZeroDivisionError else Inr (Fa0 / (v0 + V * k)))"

definition Ca_exit_b64 :: "real py" where
  "Ca_exit_b64 = (let k = b64_round 0.23; Fa0 = b64_round 1.0; v0 = b64_round 2.5; V = b64_round 10
     in b64_div Fa0 (b64_add v0 (b64_mul V k)))"

subsection \<open>Solving the problem numerically using a solver (CSTR)\<close>

text \<open>
  \<^verbatim>\<open>def func(Ca): ra = -k * Ca; Fa = v0 * Ca; return Fa0 - Fa + V * ra\<close>.
  The notebook defines a second \<open>func\<close> for the plug flow reactor, hence the suffix.
  \<open>func_cstr\<close> is the residual in exact arithmetic, as the cells below carry it;
  \<open>func_b64\<close> is the residual as the program computes it, on a float or on the numpy array
  of one double the root-finder passes, every operation rounded to binary64:
  \<open>-k * Ca\<close> is \<open>(-k) * Ca\<close>, the negation exact, and \<open>Fa0 - Fa + V * ra\<close> is
  \<open>(Fa0 - Fa) + (V * ra)\<close>. \<open>func_b64_cell\<close> is \<open>func_b64\<close> at the constants the solver cell
  assigns, the literals rounded to doubles.
\<close>

definition func_cstr :: "real \<Rightarrow> real \<Rightarrow> real \<Rightarrow> real \<Rightarrow> real \<Rightarrow> real" where
  "func_cstr k Fa0 v0 V Ca = (let ra = - k * Ca; Fa = v0 * Ca in Fa0 - Fa + V * ra)"

definition func_b64 :: "real \<Rightarrow> real \<Rightarrow> real \<Rightarrow> real \<Rightarrow> real \<Rightarrow> real" where
  "func_b64 k Fa0 v0 V Ca = (let ra = b64_mul (- k) Ca; Fa = b64_mul v0 Ca
     in b64_add (b64_sub Fa0 Fa) (b64_mul V ra))"

definition func_b64_cell :: "real \<Rightarrow> real" where
  "func_b64_cell Ca = func_b64 (b64_round 0.23) (b64_round 1.0) (b64_round 2.5) (b64_round 10) Ca"

subsection \<open>The batch reactor and the plug flow reactor\<close>

text \<open>
  \<^verbatim>\<open>def ode(Ca, t): dCadt = -k * Ca; return dCadt\<close> (batch reactor),
  \<^verbatim>\<open>def ode(Fa, V): Ca = Fa / v0; return -k * Ca\<close> (plug flow reactor) and, in the
  interpolation cell,
  \<^verbatim>\<open>def ode(Fa, V): Ca = Fa / v0; r = k * Ca; ra = -r; return ra\<close>.
  The integrator calls \<open>ode\<close> with a numpy array for \<open>Fa\<close>, so \<open>Fa / v0\<close> with \<open>v0 = 0\<close> raises
  nothing: it is \<open>inf\<close> or \<open>nan\<close>.
\<close>

definition ode_batch :: "real \<Rightarrow> real \<Rightarrow> real \<Rightarrow> real py" where
  "ode_batch k Ca t = (let dCadt = - k * Ca in Inr dCadt)"

definition ode_pfr :: "real \<Rightarrow> real \<Rightarrow> real \<Rightarrow> real \<Rightarrow> real py" where
  "ode_pfr k v0 Fa V = (if v0 = 0 then Inl NonFinite else let Ca = Fa / v0 in Inr (- k * Ca))"

definition ode_interp :: "real \<Rightarrow> real \<Rightarrow> real \<Rightarrow> real \<Rightarrow> real py" where
  "ode_interp k v0 Fa V = (if v0 = 0 then Inl NonFinite
     else let Ca = Fa / v0; r = k * Ca; ra = - r in Inr ra)"

text \<open>
  The quadrature cell: \<^verbatim>\<open>def integrand1(Fa): return 1.0 / Fa\<close>,
  \<^verbatim>\<open>def integrand2(V): return -k / nu\<close>; the event cell:
  \<^verbatim>\<open>def event1(Fa, V): isterminal = True; direction = 0; value = Fa - Fa_Exit;
  return value, isterminal, direction\<close>.
\<close>

definition integrand1 :: "real \<Rightarrow> real py" where
  "integrand1 Fa = (if Fa = 0 then Inl ZeroDivisionError else Inr (1 / Fa))"

definition integrand2 :: "real \<Rightarrow> real \<Rightarrow> real \<Rightarrow> real py" where
  "integrand2 k nu V = (if nu = 0 then Inl ZeroDivisionError else Inr (- k / nu))"

definition event1 :: "real \<Rightarrow> real \<Rightarrow> real \<Rightarrow> real \<times> bool \<times> int" where
  "event1 Fa_Exit Fa V = (let isterminal = True; direction = 0; value = Fa - Fa_Exit
     in (value, isterminal, direction))"

subsection \<open>Solving the problem with uncertainty (CSTR)\<close>

text \<open>
  Modelled from the spec: the package \<open>uncertainties\<close> (\<open>ufloat\<close> and its arithmetic) is not
  part of the repository. Section 4.6 of the spec: a quantity is a pair (nominal value,
  standard deviation); arithmetic propagates the uncertainty to first order, the partial
  derivatives times the standard deviations of the independent inputs summed in quadrature.
  A plain float has no uncertainty. Division by a zero nominal value raises.
\<close>

record uval =
  nominal :: real
  std_dev :: real

text \<open>Modelled from the spec: \<open>ufloat(nominal, std_dev)\<close> makes the pair.\<close>

definition ufloat :: "real \<Rightarrow> real \<Rightarrow> uval" where
  "ufloat n s = \<lparr>nominal = n, std_dev = s\<rparr>"

text \<open>Modelled from the spec: a plain number in arithmetic with a \<open>ufloat\<close>.\<close>

definition exact :: "real \<Rightarrow> uval" where
  "exact c = \<lparr>nominal = c, std_dev = 0\<rparr>"

text \<open>Modelled from the spec: \<open>a + b\<close>, both partial derivatives being 1.\<close>

definition u_add :: "uval \<Rightarrow> uval \<Rightarrow> uval" where
  "u_add a b = \<lparr>nominal = nominal a + nominal b,
     std_dev = sqrt ((1 * std_dev a)\<^sup>2 + (1 * std_dev b)\<^sup>2)\<rparr>"

text \<open>Modelled from the spec: \<open>a * b\<close>, with the partial derivatives \<open>b\<close> and \<open>a\<close>.\<close>

definition u_mul :: "uval \<Rightarrow> uval \<Rightarrow> uval" where
  "u_mul a b = \<lparr>nominal = nominal a * nominal b,
     std_dev = sqrt ((nominal b * std_dev a)\<^sup>2 + (nominal a * std_dev b)\<^sup>2)\<rparr>"

text \<open>
  Modelled from the spec: \<open>a / b\<close>, with the partial derivatives \<open>1 / b\<close> and \<open>- a / b\<^sup>2\<close>.
\<close>

definition u_div :: "uval \<Rightarrow> uval \<Rightarrow> uval py" where
  "u_div a b = (if nominal b = 0 then Inl ZeroDivisionError
     else Inr \<lparr>nominal = nominal a / nominal b,
       std_dev = sqrt ((1 / nominal b * std_dev a)\<^sup>2
                     + (- nominal a / (nominal b)\<^sup>2 * std_dev b)\<^sup>2)\<rparr>)"

text \<open>\<^verbatim>\<open>Cae = Fa0 / (v0 + V * k)\<close> with \<open>k\<close> a \<open>ufloat\<close> and \<open>Fa0\<close>, \<open>v0\<close>, \<open>V\<close> plain numbers.\<close>

definition Cae :: "uval \<Rightarrow> real \<Rightarrow> real \<Rightarrow> real \<Rightarrow> uval py" where
  "Cae k Fa0 v0 V = u_div (exact Fa0) (u_add (exact v0) (u_mul (exact V) k))"

subsection \<open>The library routines\<close>

text \<open>
  \<open>scipy.optimize.fsolve\<close>, \<open>scipy.integrate.odeint\<close>, \<open>scipy.integrate.quad\<close>,
  \<open>scipy.interpolate.interp1d\<close> (kind \<open>cubic\<close>) and \<open>pycse.odelay\<close> are not part of the
  repository: the cells take them as parameters, functions of what they are called with.
  A routine returns a value or passes on the exception its callback raised. \<open>fsolve\<close> on
  one unknown returns an array of one number, \<open>odeint\<close> on one unknown a column of numbers;
  here they are the number and the list. Every cell imports the routines it calls.
\<close>

record library =
  fsolve :: "(real \<Rightarrow> real py) \<Rightarrow> real \<Rightarrow> real py"
  odeint :: "(real \<Rightarrow> real \<Rightarrow> real py) \<Rightarrow> real \<Rightarrow> real list \<Rightarrow> real list py"
  quad :: "(real \<Rightarrow> real py) \<Rightarrow> real \<Rightarrow> real \<Rightarrow> (real \<times> real) py"
  interp1d :: "real list \<Rightarrow> real list \<Rightarrow> (real \<Rightarrow> real py) py"
  odelay :: "(real \<Rightarrow> real \<Rightarrow> real py) \<Rightarrow> real \<Rightarrow> real list
    \<Rightarrow> (real \<Rightarrow> real \<Rightarrow> (real \<times> bool \<times> int) py) list
    \<Rightarrow> (real list \<times> real list \<times> real list \<times> real list \<times> nat list) py"

text \<open>
  \<open>numpy.linspace(start, stop)\<close>: \<open>num\<close> evenly spaced samples, 50 when not given, the last
  one \<open>stop\<close> itself.
\<close>

definition linspace :: "real \<Rightarrow> real \<Rightarrow> nat \<Rightarrow> real list" where
  "linspace start stop num = (if num = 0 then [] else if num = 1 then [start]
     else map (\<lambda>i. start + of_nat i * ((stop - start) / of_nat (num - 1))) [0..<num - 1] @ [stop])"

subsection \<open>Module-level names\<close>

text \<open>
  A name of the module holds nothing yet, \<open>None\<close>, a number, a \<open>ufloat\<close>, an array, one of
  the functions the cells define with \<open>def\<close>, or the interpolant \<open>interp1d\<close> returned.
  Mentioning a name that holds nothing raises NameError. Reading anything but a number
  where the cell computes with numbers is TypeError here (the array and \<open>ufloat\<close>
  arithmetic of such a read is not modelled), as is calling what is no function or a
  function of another arity.
\<close>

datatype fun_name = Def_func_cstr | Def_func_pfr | Def_integrand1 | Def_integrand2
  | Def_ode_batch | Def_ode_pfr | Def_ode_interp | Def_event1 | Def_objective

datatype pyval = Unbound | PyNone | Num real | UFloat uval | Arr "real list"
  | Fun fun_name | Interp "real \<Rightarrow> real py"

record globals =
  g_k :: pyval
  g_Fa0 :: pyval
  g_v0 :: pyval
  g_V :: pyval
  g_Ca_exit :: pyval
  g_func :: pyval
  g_guess :: pyval
  g_ans :: pyval
  g_Cae :: pyval
  g_Ca0 :: pyval
  g_ode :: pyval
  g_tspan :: pyval
  g_sol :: pyval
  g_Vspan :: pyval
  g_Fa_exit :: pyval
  g_nu :: pyval
  g_Fa :: pyval
  g_integrand1 :: pyval
  g_integrand2 :: pyval
  g_Fa_Exit :: pyval
  g_event1 :: pyval
  g_F :: pyval
  g_TE :: pyval
  g_YE :: pyval
  g_IE :: pyval
  g_interp_func :: pyval
  g_objective :: pyval
  g_V_sol :: pyval

fun name :: "pyval \<Rightarrow> pyval py" where
  "name Unbound = Inl NameError"
| "name v = Inr v"

fun as_num :: "pyval \<Rightarrow> real py" where
  "as_num Unbound = Inl NameError"
| "as_num (Num x) = Inr x"
| "as_num v = Inl TypeError"

fun as_arr :: "pyval \<Rightarrow> real list py" where
  "as_arr Unbound = Inl NameError"
| "as_arr (Arr xs) = Inr xs"
| "as_arr v = Inl TypeError"

fun as_unum :: "pyval \<Rightarrow> uval py" where
  "as_unum Unbound = Inl NameError"
| "as_unum (UFloat u) = Inr u"
| "as_unum (Num x) = Inr (exact x)"
| "as_unum v = Inl TypeError"

text \<open>\<open>xs[-1]\<close>: the last entry; IndexError on an empty array.\<close>

definition last_entry :: "real list \<Rightarrow> real py" where
  "last_entry xs = (if xs = [] then Inl IndexError else Inr (last xs))"

subsection \<open>The functions of the cells, reading the module's names at the call\<close>

definition func_closure :: "globals \<Rightarrow> real \<Rightarrow> real py" where
  "func_closure g Ca = py_bind (as_num (g_k g)) (\<lambda>k. py_bind (as_num (g_v0 g)) (\<lambda>v0.
     py_bind (as_num (g_Fa0 g)) (\<lambda>Fa0. py_bind (as_num (g_V g)) (\<lambda>V.
     Inr (func_cstr k Fa0 v0 V Ca)))))"

definition ode_batch_closure :: "globals \<Rightarrow> real \<Rightarrow> real \<Rightarrow> real py" where
  "ode_batch_closure g Ca t = py_bind (as_num (g_k g)) (\<lambda>k. ode_batch k Ca t)"

definition ode_pfr_closure :: "globals \<Rightarrow> real \<Rightarrow> real \<Rightarrow> real py" where
  "ode_pfr_closure g Fa V =
     py_bind (as_num (g_v0 g)) (\<lambda>v0. py_bind (as_num (g_k g)) (\<lambda>k. ode_pfr k v0 Fa V))"

definition ode_interp_closure :: "globals \<Rightarrow> real \<Rightarrow> real \<Rightarrow> real py" where
  "ode_interp_closure g Fa V =
     py_bind (as_num (g_v0 g)) (\<lambda>v0. py_bind (as_num (g_k g)) (\<lambda>k. ode_interp k v0 Fa V))"

definition integrand2_closure :: "globals \<Rightarrow> real \<Rightarrow> real py" where
  "integrand2_closure g V =
     py_bind (as_num (g_k g)) (\<lambda>k. py_bind (as_num (g_nu g)) (\<lambda>nu. integrand2 k nu V))"

definition event1_closure :: "globals \<Rightarrow> real \<Rightarrow> real \<Rightarrow> (real \<times> bool \<times> int) py" where
  "event1_closure g Fa V = py_bind (as_num (g_Fa_Exit g)) (\<lambda>Fa_Exit. Inr (event1 Fa_Exit Fa V))"

text \<open>
  Calling a value with one argument, for the functions that call no other function of the
  notebook.
\<close>

fun call_leaf :: "globals \<Rightarrow> pyval \<Rightarrow> real \<Rightarrow> real py" where
  "call_leaf g (Fun Def_func_cstr) x = func_closure g x"
| "call_leaf g (Fun Def_integrand1) x = integrand1 x"
| "call_leaf g (Fun Def_integrand2) x = integrand2_closure g x"
| "call_leaf g (Interp f) x = f x"
| "call_leaf g v x = Inl TypeError"

text \<open>
  \<^verbatim>\<open>def func(V): I1, e1 = quad(integrand1, Fa0, Fa); I2, e2 = quad(integrand2, 0, V);
  return I1 - I2\<close> and \<^verbatim>\<open>def objective(V): return interp_func(V) - Fa_exit\<close>.
\<close>

definition func_pfr :: "library \<Rightarrow> globals \<Rightarrow> real \<Rightarrow> real py" where
  "func_pfr lib g V = py_bind (name (g_integrand1 g)) (\<lambda>integrand1.
     py_bind (as_num (g_Fa0 g)) (\<lambda>Fa0. py_bind (as_num (g_Fa g)) (\<lambda>Fa.
     py_bind (quad lib (call_leaf g integrand1) Fa0 Fa) (\<lambda>(I1, e1).
     py_bind (name (g_integrand2 g)) (\<lambda>integrand2.
     py_bind (quad lib (call_leaf g integrand2) 0 V) (\<lambda>(I2, e2). Inr (I1 - I2)))))))"

definition objective :: "globals \<Rightarrow> real \<Rightarrow> real py" where
  "objective g V = py_bind (name (g_interp_func g)) (\<lambda>interp_func.
     py_bind (call_leaf g interp_func V) (\<lambda>v.
     py_bind (as_num (g_Fa_exit g)) (\<lambda>Fa_exit. Inr (v - Fa_exit))))"

text \<open>Calling a value with one argument, with two, and as an event function.\<close>

fun call1 :: "library \<Rightarrow> globals \<Rightarrow> pyval \<Rightarrow> real \<Rightarrow> real py" where
  "call1 lib g (Fun Def_func_pfr) x = func_pfr lib g x"
| "call1 lib g (Fun Def_objective) x = objective g x"
| "call1 lib g v x = call_leaf g v x"

fun call2 :: "globals \<Rightarrow> pyval \<Rightarrow> real \<Rightarrow> real \<Rightarrow> real py" where
  "call2 g (Fun Def_ode_batch) y x = ode_batch_closure g y x"
| "call2 g (Fun Def_ode_pfr) y x = ode_pfr_closure g y x"
| "call2 g (Fun Def_ode_interp) y x = ode_interp_closure g y x"
| "call2 g v y x = Inl TypeError"

fun call_event :: "globals \<Rightarrow> pyval \<Rightarrow> real \<Rightarrow> real \<Rightarrow> (real \<times> bool \<times> int) py" where
  "call_event g (Fun Def_event1) y x = event1_closure g y x"
| "call_event g v y x = Inl TypeError"

subsection \<open>Cells\<close>

text \<open>
  A cell runs its statements in order on the module's names and prints a value, or stops
  at the first exception; the names assigned before the exception keep their values.
  Plotting is left out.
\<close>

type_synonym 'a cell = "globals \<Rightarrow> globals \<times> 'a py"

definition seq :: "'a cell \<Rightarrow> ('a \<Rightarrow> 'b cell) \<Rightarrow> 'b cell" where
  "seq m f g = (case m g of (g1, Inl e) \<Rightarrow> (g1, Inl e) | (g1, Inr v) \<Rightarrow> f v g1)"

definition then_do :: "unit cell \<Rightarrow> 'b cell \<Rightarrow> 'b cell" where
  "then_do m c = seq m (\<lambda>_. c)"

definition assign :: "(globals \<Rightarrow> globals) \<Rightarrow> unit cell" where
  "assign upd g = (upd g, Inr ())"

definition expr :: "(globals \<Rightarrow> 'a py) \<Rightarrow> 'a cell" where
  "expr e g = (g, e g)"

text \<open>Solving the problem with algebra (CSTR): prints \<open>Ca_exit\<close>.\<close>

definition cell_algebra :: "pyval cell" where
  "cell_algebra =
     then_do (assign (\<lambda>g. g\<lparr>g_k := Num 0.23\<rparr>)) (
     then_do (assign (\<lambda>g. g\<lparr>g_Fa0 := Num 1.0\<rparr>)) (
     then_do (assign (\<lambda>g. g\<lparr>g_v0 := Num 2.5\<rparr>)) (
     then_do (assign (\<lambda>g. g\<lparr>g_V := Num 10\<rparr>)) (
     seq (expr (\<lambda>g. py_bind (as_num (g_Fa0 g)) (\<lambda>Fa0.
         py_bind (as_num (g_v0 g)) (\<lambda>v0.
         py_bind (as_num (g_V g)) (\<lambda>V.
         py_bind (as_num (g_k g)) (\<lambda>k.
         Ca_exit k Fa0 v0 V)))))) (\<lambda>c.
     then_do (assign (\<lambda>g. g\<lparr>g_Ca_exit := Num c\<rparr>)) (
     expr (\<lambda>g. name (g_Ca_exit g))))))))"

text \<open>Solving the problem numerically using a solver (CSTR): prints \<open>ans\<close>.\<close>

definition cell_solver :: "library \<Rightarrow> pyval cell" where
  "cell_solver lib =
     then_do (assign (\<lambda>g. g\<lparr>g_k := Num 0.23\<rparr>)) (
     then_do (assign (\<lambda>g. g\<lparr>g_Fa0 := Num 1.0\<rparr>)) (
     then_do (assign (\<lambda>g. g\<lparr>g_v0 := Num 2.5\<rparr>)) (
     then_do (assign (\<lambda>g. g\<lparr>g_V := Num 10\<rparr>)) (
     then_do (assign (\<lambda>g. g\<lparr>g_func := Fun Def_func_cstr\<rparr>)) (
     then_do (assign (\<lambda>g. g\<lparr>g_guess := Num 1.0\<rparr>)) (
     seq (expr (\<lambda>g. py_bind (name (g_func g)) (\<lambda>func.
         py_bind (as_num (g_guess g)) (\<lambda>guess.
         fsolve lib (call1 lib g func) guess)))) (\<lambda>a.
     then_do (assign (\<lambda>g. g\<lparr>g_ans := Num a\<rparr>)) (
     expr (\<lambda>g. name (g_ans g))))))))))"

text \<open>Solving the problem with uncertainty (CSTR): prints \<open>Cae\<close>.\<close>

definition cell_uncertainty :: "pyval cell" where
  "cell_uncertainty =
     then_do (assign (\<lambda>g. g\<lparr>g_k := UFloat (ufloat 0.23 0.1)\<rparr>)) (
     then_do (assign (\<lambda>g. g\<lparr>g_Fa0 := Num 1.0\<rparr>)) (
     then_do (assign (\<lambda>g. g\<lparr>g_v0 := Num 2.5\<rparr>)) (
     then_do (assign (\<lambda>g. g\<lparr>g_V := Num 10\<rparr>)) (
     seq (expr (\<lambda>g. py_bind (as_num (g_Fa0 g)) (\<lambda>Fa0.
         py_bind (as_num (g_v0 g)) (\<lambda>v0.
         py_bind (as_num (g_V g)) (\<lambda>V.
         py_bind (as_unum (g_k g)) (\<lambda>k.
         Cae k Fa0 v0 V)))))) (\<lambda>c.
     then_do (assign (\<lambda>g. g\<lparr>g_Cae := UFloat c\<rparr>)) (
     expr (\<lambda>g. name (g_Cae g))))))))"

text \<open>Solving the problem (constant volume batch reactor): prints \<open>sol[-1, 0]\<close>.\<close>

definition cell_batch :: "library \<Rightarrow> pyval cell" where
  "cell_batch lib =
     then_do (assign (\<lambda>g. g\<lparr>g_k := Num 0.23\<rparr>)) (
     then_do (assign (\<lambda>g. g\<lparr>g_Ca0 := Num 2.0\<rparr>)) (
     then_do (assign (\<lambda>g. g\<lparr>g_ode := Fun Def_ode_batch\<rparr>)) (
     then_do (assign (\<lambda>g. g\<lparr>g_tspan := Arr (linspace 0 1 50)\<rparr>)) (
     seq (expr (\<lambda>g. py_bind (name (g_ode g)) (\<lambda>ode.
         py_bind (as_num (g_Ca0 g)) (\<lambda>Ca0.
         py_bind (as_arr (g_tspan g)) (\<lambda>tspan.
         odeint lib (call2 g ode) Ca0 tspan))))) (\<lambda>s.
     then_do (assign (\<lambda>g. g\<lparr>g_sol := Arr s\<rparr>)) (
     expr (\<lambda>g. py_bind (as_arr (g_sol g)) (\<lambda>sol.
         py_bind (last_entry sol) (\<lambda>v. Inr (Num v))))))))))"

text \<open>Plotting \<open>C_A\<close> vs. time in a batch reactor: prints the shapes of \<open>tspan\<close> and \<open>sol\<close>.\<close>

definition cell_batch_plot :: "library \<Rightarrow> pyval cell" where
  "cell_batch_plot lib =
     then_do (assign (\<lambda>g. g\<lparr>g_k := Num 0.23\<rparr>)) (
     then_do (assign (\<lambda>g. g\<lparr>g_Ca0 := Num 2.0\<rparr>)) (
     then_do (assign (\<lambda>g. g\<lparr>g_ode := Fun Def_ode_batch\<rparr>)) (
     then_do (assign (\<lambda>g. g\<lparr>g_tspan := Arr (linspace 0 1 50)\<rparr>)) (
     seq (expr (\<lambda>g. py_bind (name (g_ode g)) (\<lambda>ode.
         py_bind (as_num (g_Ca0 g)) (\<lambda>Ca0.
         py_bind (as_arr (g_tspan g)) (\<lambda>tspan.
         odeint lib (call2 g ode) Ca0 tspan))))) (\<lambda>s.
     then_do (assign (\<lambda>g. g\<lparr>g_sol := Arr s\<rparr>)) (
     expr (\<lambda>g. py_bind (as_arr (g_tspan g)) (\<lambda>tspan.
         py_bind (as_arr (g_sol g)) (\<lambda>sol.
         Inr (Arr [of_nat (length tspan), of_nat (length sol)]))))))))))"

text \<open>A worked PFR example: prints \<open>Fa_exit / v0\<close>, a numpy float divided by \<open>v0\<close>.\<close>

definition cell_pfr :: "library \<Rightarrow> pyval cell" where
  "cell_pfr lib =
     then_do (assign (\<lambda>g. g\<lparr>g_Ca0 := Num 3.0\<rparr>)) (
     then_do (assign (\<lambda>g. g\<lparr>g_v0 := Num 10.0\<rparr>)) (
     then_do (assign (\<lambda>g. g\<lparr>g_k := Num 0.23\<rparr>)) (
     then_do (assign (\<lambda>g. g\<lparr>g_ode := Fun Def_ode_pfr\<rparr>)) (
     then_do (assign (\<lambda>g. g\<lparr>g_Vspan := Arr [0, 100]\<rparr>)) (
     seq (expr (\<lambda>g. py_bind (name (g_ode g)) (\<lambda>ode.
         py_bind (as_num (g_Ca0 g)) (\<lambda>Ca0.
         py_bind (as_num (g_v0 g)) (\<lambda>v0.
         py_bind (as_arr (g_Vspan g)) (\<lambda>Vspan.
         odeint lib (call2 g ode) (Ca0 * v0) Vspan)))))) (\<lambda>s.
     then_do (assign (\<lambda>g. g\<lparr>g_sol := Arr s\<rparr>)) (
     seq (expr (\<lambda>g. py_bind (as_arr (g_sol g)) (\<lambda>sol.
         last_entry sol))) (\<lambda>fe.
     then_do (assign (\<lambda>g. g\<lparr>g_Fa_exit := Num fe\<rparr>)) (
     expr (\<lambda>g. py_bind (as_num (g_Fa_exit g)) (\<lambda>Fa_exit.
         py_bind (as_num (g_v0 g)) (\<lambda>v0.
         if v0 = 0 then Inl NonFinite else Inr (Num (Fa_exit / v0))))))))))))))"

text \<open>A harder PFR example (the plot): prints nothing.\<close>

definition cell_pfr_plot :: "library \<Rightarrow> pyval cell" where
  "cell_pfr_plot lib =
     then_do (assign (\<lambda>g. g\<lparr>g_Ca0 := Num 3.0\<rparr>)) (
     then_do (assign (\<lambda>g. g\<lparr>g_v0 := Num 10.0\<rparr>)) (
     then_do (assign (\<lambda>g. g\<lparr>g_k := Num 0.23\<rparr>)) (
     then_do (assign (\<lambda>g. g\<lparr>g_ode := Fun Def_ode_pfr\<rparr>)) (
     then_do (assign (\<lambda>g. g\<lparr>g_Vspan := Arr (linspace 0 200 50)\<rparr>)) (
     seq (expr (\<lambda>g. py_bind (name (g_ode g)) (\<lambda>ode.
         py_bind (as_num (g_Ca0 g)) (\<lambda>Ca0.
         py_bind (as_num (g_v0 g)) (\<lambda>v0.
         py_bind (as_arr (g_Vspan g)) (\<lambda>Vspan.
         odeint lib (call2 g ode) (Ca0 * v0) Vspan)))))) (\<lambda>s.
     then_do (assign (\<lambda>g. g\<lparr>g_sol := Arr s\<rparr>)) (
     expr (\<lambda>g. Inr PyNone))))))))"

text \<open>Numerical solution, by quadrature and a root-find: prints \<open>float(sol)\<close>.\<close>

definition cell_quadrature :: "library \<Rightarrow> pyval cell" where
  "cell_quadrature lib =
     then_do (assign (\<lambda>g. g\<lparr>g_k := Num 0.23\<rparr>)) (
     then_do (assign (\<lambda>g. g\<lparr>g_nu := Num 10\<rparr>)) (
     then_do (assign (\<lambda>g. g\<lparr>g_Ca0 := Num 3.0\<rparr>)) (
     seq (expr (\<lambda>g. py_bind (as_num (g_Ca0 g)) (\<lambda>Ca0.
         py_bind (as_num (g_nu g)) (\<lambda>nu.
         Inr (Ca0 * nu))))) (\<lambda>v.
     then_do (assign (\<lambda>g. g\<lparr>g_Fa0 := Num v\<rparr>)) (
     seq (expr (\<lambda>g. py_bind (as_num (g_nu g)) (\<lambda>nu.
         Inr (0.30 * nu)))) (\<lambda>v.
     then_do (assign (\<lambda>g. g\<lparr>g_Fa := Num v\<rparr>)) (
     then_do (assign (\<lambda>g. g\<lparr>g_integrand1 := Fun Def_integrand1\<rparr>)) (
     then_do (assign (\<lambda>g. g\<lparr>g_integrand2 := Fun Def_integrand2\<rparr>)) (
     then_do (assign (\<lambda>g. g\<lparr>g_func := Fun Def_func_pfr\<rparr>)) (
     then_do (assign (\<lambda>g. g\<lparr>g_guess := Num 120\<rparr>)) (
     seq (expr (\<lambda>g. py_bind (name (g_func g)) (\<lambda>func.
         py_bind (as_num (g_guess g)) (\<lambda>guess.
         fsolve lib (call1 lib g func) guess)))) (\<lambda>s.
     then_do (assign (\<lambda>g. g\<lparr>g_sol := Arr [s]\<rparr>)) (
     expr (\<lambda>g. py_bind (as_arr (g_sol g)) (\<lambda>sol.
         py_bind (last_entry sol) (\<lambda>v. Inr (Num v)))))))))))))))))"

text \<open>Using events to stop integration: prints \<open>V[-1]\<close>.\<close>

definition cell_events :: "library \<Rightarrow> pyval cell" where
  "cell_events lib =
     then_do (assign (\<lambda>g. g\<lparr>g_Ca0 := Num 3.0\<rparr>)) (
     then_do (assign (\<lambda>g. g\<lparr>g_v0 := Num 10.0\<rparr>)) (
     then_do (assign (\<lambda>g. g\<lparr>g_k := Num 0.23\<rparr>)) (
     seq (expr (\<lambda>g. py_bind (as_num (g_v0 g)) (\<lambda>v0.
         Inr (0.3 * v0)))) (\<lambda>v.
     then_do (assign (\<lambda>g. g\<lparr>g_Fa_Exit := Num v\<rparr>)) (
     then_do (assign (\<lambda>g. g\<lparr>g_ode := Fun Def_ode_pfr\<rparr>)) (
     then_do (assign (\<lambda>g. g\<lparr>g_event1 := Fun Def_event1\<rparr>)) (
     then_do (assign (\<lambda>g. g\<lparr>g_Vspan := Arr (linspace 0 200 50)\<rparr>)) (
     seq (expr (\<lambda>g. py_bind (name (g_ode g)) (\<lambda>ode.
         py_bind (as_num (g_Ca0 g)) (\<lambda>Ca0.
         py_bind (as_num (g_v0 g)) (\<lambda>v0.
         py_bind (as_arr (g_Vspan g)) (\<lambda>Vspan.
         py_bind (name (g_event1 g)) (\<lambda>event1.
         odelay lib (call2 g ode) (Ca0 * v0) Vspan [call_event g event1]))))))) (\<lambda>(V, F, TE, YE, IE).
     then_do (assign (\<lambda>g. g\<lparr>g_V := Arr V, g_F := Arr F, g_TE := Arr TE, g_YE := Arr YE, g_IE := Arr (map of_nat IE)\<rparr>)) (
     expr (\<lambda>g. py_bind (as_arr (g_V g)) (\<lambda>V.
         py_bind (last_entry V) (\<lambda>v. Inr (Num v))))))))))))))"

text \<open>Solution by interpolation: prints \<open>float(V_sol)\<close>.\<close>

definition cell_interpolation :: "library \<Rightarrow> pyval cell" where
  "cell_interpolation lib =
     then_do (assign (\<lambda>g. g\<lparr>g_Ca0 := Num 3.0\<rparr>)) (
     then_do (assign (\<lambda>g. g\<lparr>g_v0 := Num 10.0\<rparr>)) (
     then_do (assign (\<lambda>g. g\<lparr>g_k := Num 0.23\<rparr>)) (
     then_do (assign (\<lambda>g. g\<lparr>g_ode := Fun Def_ode_interp\<rparr>)) (
     then_do (assign (\<lambda>g. g\<lparr>g_Vspan := Arr (linspace 0 200 50)\<rparr>)) (
     seq (expr (\<lambda>g. py_bind (name (g_ode g)) (\<lambda>ode.
         py_bind (as_num (g_Ca0 g)) (\<lambda>Ca0.
         py_bind (as_num (g_v0 g)) (\<lambda>v0.
         py_bind (as_arr (g_Vspan g)) (\<lambda>Vspan.
         odeint lib (call2 g ode) (Ca0 * v0) Vspan)))))) (\<lambda>s.
     then_do (assign (\<lambda>g. g\<lparr>g_sol := Arr s\<rparr>)) (
     then_do (assign (\<lambda>g. g\<lparr>g_Ca_exit := Num 0.3\<rparr>)) (
     seq (expr (\<lambda>g. py_bind (as_num (g_Ca_exit g)) (\<lambda>Ca_exit.
         py_bind (as_num (g_v0 g)) (\<lambda>v0.
         Inr (Ca_exit * v0))))) (\<lambda>v.
     then_do (assign (\<lambda>g. g\<lparr>g_Fa_exit := Num v\<rparr>)) (
     seq (expr (\<lambda>g. py_bind (as_arr (g_Vspan g)) (\<lambda>Vspan.
         py_bind (as_arr (g_sol g)) (\<lambda>sol.
         interp1d lib Vspan sol)))) (\<lambda>f.
     then_do (assign (\<lambda>g. g\<lparr>g_interp_func := Interp f\<rparr>)) (
     then_do (assign (\<lambda>g. g\<lparr>g_objective := Fun Def_objective\<rparr>)) (
     seq (expr (\<lambda>g. py_bind (name (g_objective g)) (\<lambda>objective.
         fsolve lib (call1 lib g objective) 100))) (\<lambda>s.
     then_do (assign (\<lambda>g. g\<lparr>g_V_sol := Arr [s]\<rparr>)) (
     expr (\<lambda>g. py_bind (as_arr (g_V_sol g)) (\<lambda>V_sol.
         py_bind (last_entry V_sol) (\<lambda>v. Inr (Num v)))))))))))))))))))"

subsection \<open>Running the notebook\<close>

text \<open>
  The cells by the heading they stand under. A notebook runs its cells in any order, any
  number of times, starting from a module with no name bound.
\<close>

datatype cell_id = Algebra | Solver | Uncertainty | Batch | Batch_plot | Pfr | Pfr_plot
  | Quadrature | Events | Interpolation

fun run_cell :: "library \<Rightarrow> cell_id \<Rightarrow> pyval cell" where
  "run_cell lib Algebra = cell_algebra"
| "run_cell lib Solver = cell_solver lib"
| "run_cell lib Uncertainty = cell_uncertainty"
| "run_cell lib Batch = cell_batch lib"
| "run_cell lib Batch_plot = cell_batch_plot lib"
| "run_cell lib Pfr = cell_pfr lib"
| "run_cell lib Pfr_plot = cell_pfr_plot lib"
| "run_cell lib Quadrature = cell_quadrature lib"
| "run_cell lib Events = cell_events lib"
| "run_cell lib Interpolation = cell_interpolation lib"

definition run_cells :: "library \<Rightarrow> cell_id list \<Rightarrow> globals \<Rightarrow> globals" where
  "run_cells lib history g = foldl (\<lambda>g c. fst (run_cell lib c g)) g history"

definition fresh_module :: globals where
  "fresh_module = \<lparr>g_k = Unbound, g_Fa0 = Unbound, g_v0 = Unbound, g_V = Unbound,
     g_Ca_exit = Unbound, g_func = Unbound, g_guess = Unbound, g_ans = Unbound, g_Cae = Unbound,
     g_Ca0 = Unbound, g_ode = Unbound, g_tspan = Unbound, g_sol = Unbound, g_Vspan = Unbound,
     g_Fa_exit = Unbound, g_nu = Unbound, g_Fa = Unbound, g_integrand1 = Unbound,
     g_integrand2 = Unbound, g_Fa_Exit = Unbound, g_event1 = Unbound, g_F = Unbound,
     g_TE = Unbound, g_YE = Unbound, g_IE = Unbound, g_interp_func = Unbound,
     g_objective = Unbound, g_V_sol = Unbound\<rparr>"

subsection \<open>Exact solutions\<close>

text \<open>
  The initial value problem an integrator is handed: \<open>y\<close> starts at \<open>y0\<close> in \<open>t0\<close> and has
  the derivative the function \<open>f\<close> of the cell returns, which raises nowhere along \<open>y\<close>.
  \<open>exact_trace\<close> is that solution read off at the points of the grid, the first point being
  where it starts. It is what the integrator is asked to approximate, not what it returns:
  the column \<open>odeint\<close> computes carries its integration error.
\<close>

definition solves_ivp :: "(real \<Rightarrow> real \<Rightarrow> real py) \<Rightarrow> real \<Rightarrow> real \<Rightarrow> (real \<Rightarrow> real) \<Rightarrow> bool" where
  "solves_ivp f y0 t0 y =
     (y t0 = y0 \<and> (\<forall>t. \<exists>d. f (y t) t = Inr d \<and> (y has_real_derivative d) (at t)))"

definition exact_trace :: "(real \<Rightarrow> real \<Rightarrow> real py) \<Rightarrow> real \<Rightarrow> real list \<Rightarrow> real list \<Rightarrow> bool" where
  "exact_trace f y0 grid sol =
     (grid \<noteq> [] \<and> (\<exists>y. solves_ivp f y0 (hd grid) y \<and> sol = map y grid))"

text \<open>Relative agreement of a value with a reference, as the tolerances are stated.\<close>

definition within_rel :: "real \<Rightarrow> real \<Rightarrow> real \<Rightarrow> bool" where
  "within_rel tol reference v = (\<bar>v - reference\<bar> \<le> tol * \<bar>reference\<bar>)"

section \<open>Properties\<close>

subsection \<open>Running a cell\<close>

lemma py_bind_simps: "py_bind (Inr v) f = f v" "py_bind (Inl e) f = Inl e"
  by (simp_all add: py_bind_def)

lemmas cell_steps = seq_def then_do_def assign_def expr_def py_bind_simps

lemma call_equations:
  "call1 lib g (Fun Def_func_cstr) = func_closure g"
  "call1 lib g (Fun Def_func_pfr) = func_pfr lib g"
  "call1 lib g (Fun Def_objective) = objective g"
  "call_leaf g (Fun Def_integrand1) = integrand1"
  "call_leaf g (Fun Def_integrand2) = integrand2_closure g"
  "call_leaf g (Interp f) = f"
  "call2 g (Fun Def_ode_batch) = ode_batch_closure g"
  "call2 g (Fun Def_ode_pfr) = ode_pfr_closure g"
  "call2 g (Fun Def_ode_interp) = ode_interp_closure g"
  "call_event g (Fun Def_event1) = event1_closure g"
  by (simp_all add: fun_eq_iff)

lemmas closures = call_equations func_closure_def [abs_def] ode_batch_closure_def [abs_def]
  ode_pfr_closure_def [abs_def] ode_interp_closure_def [abs_def]
  integrand2_closure_def [abs_def] func_pfr_def [abs_def] event1_closure_def [abs_def]
  objective_def [abs_def]

lemma cell_algebra_prints: "snd (cell_algebra g) = Inr (Num (5 / 24))"
  by (simp add: cell_algebra_def cell_steps Ca_exit_def)

lemma cell_solver_prints:
  "snd (cell_solver lib g)
   = py_bind (fsolve lib (\<lambda>Ca. Inr (func_cstr 0.23 1.0 2.5 10 Ca)) 1.0) (\<lambda>a. Inr (Num a))"
  by (simp add: cell_solver_def cell_steps closures py_bind_def split: sum.splits)

lemma cell_uncertainty_prints:
  "snd (cell_uncertainty g) = py_bind (Cae (ufloat 0.23 0.1) 1.0 2.5 10) (\<lambda>c. Inr (UFloat c))"
  by (simp add: cell_uncertainty_def cell_steps py_bind_def split: sum.splits)

lemma cell_batch_prints:
  "snd (cell_batch lib g)
   = py_bind (odeint lib (\<lambda>Ca t. ode_batch 0.23 Ca t) 2.0 (linspace 0 1 50))
       (\<lambda>sol. py_bind (last_entry sol) (\<lambda>v. Inr (Num v)))"
  by (simp add: cell_batch_def cell_steps closures py_bind_def split: sum.splits)

lemma cell_pfr_prints:
  "snd (cell_pfr lib g)
   = py_bind (odeint lib (\<lambda>Fa V. ode_pfr 0.23 10.0 Fa V) (3.0 * 10.0) [0, 100])
       (\<lambda>sol. py_bind (last_entry sol) (\<lambda>Fa_exit. Inr (Num (Fa_exit / 10.0))))"
  by (simp add: cell_pfr_def cell_steps closures py_bind_def split: sum.splits)

lemma cell_algebra_independent: "snd (cell_algebra g) = snd (cell_algebra g')"
  by (simp add: cell_algebra_prints)

lemma cell_solver_independent: "snd (cell_solver lib g) = snd (cell_solver lib g')"
  by (simp add: cell_solver_prints)

lemma cell_uncertainty_independent: "snd (cell_uncertainty g) = snd (cell_uncertainty g')"
  by (simp add: cell_uncertainty_prints)

lemma cell_batch_independent: "snd (cell_batch lib g) = snd (cell_batch lib g')"
  by (simp add: cell_batch_prints)

lemma cell_batch_plot_independent: "snd (cell_batch_plot lib g) = snd (cell_batch_plot lib g')"
  by (simp add: cell_batch_plot_def cell_steps closures split: sum.splits)

lemma cell_pfr_independent: "snd (cell_pfr lib g) = snd (cell_pfr lib g')"
  by (simp add: cell_pfr_prints)

lemma cell_pfr_plot_independent: "snd (cell_pfr_plot lib g) = snd (cell_pfr_plot lib g')"
  by (simp add: cell_pfr_plot_def cell_steps closures split: sum.splits)

lemma cell_quadrature_independent: "snd (cell_quadrature lib g) = snd (cell_quadrature lib g')"
  by (simp add: cell_quadrature_def cell_steps closures split: sum.splits)

lemma cell_events_independent: "snd (cell_events lib g) = snd (cell_events lib g')"
  by (simp add: cell_events_def cell_steps closures split: sum.splits prod.splits)

lemma cell_interpolation_independent:
  "snd (cell_interpolation lib g) = snd (cell_interpolation lib g')"
  by (simp add: cell_interpolation_def cell_steps closures split: sum.splits)

lemma run_cell_output: "snd (run_cell lib c g) = snd (run_cell lib c g')"
proof (cases c)
  case Algebra
  then show ?thesis
    using cell_algebra_independent [of g g'] by simp
next
  case Solver
  then show ?thesis
    using cell_solver_independent [of lib g g'] by simp
next
  case Uncertainty
  then show ?thesis
    using cell_uncertainty_independent [of g g'] by simp
next
  case Batch
  then show ?thesis
    using cell_batch_independent [of lib g g'] by simp
next
  case Batch_plot
  then show ?thesis
    using cell_batch_plot_independent [of lib g g'] by simp
next
  case Pfr
  then show ?thesis
    using cell_pfr_independent [of lib g g'] by simp
next
  case Pfr_plot
  then show ?thesis
    using cell_pfr_plot_independent [of lib g g'] by simp
next
  case Quadrature
  then show ?thesis
    using cell_quadrature_independent [of lib g g'] by simp
next
  case Events
  then show ?thesis
    using cell_events_independent [of lib g g'] by simp
next
  case Interpolation
  then show ?thesis
    using cell_interpolation_independent [of lib g g'] by simp
qed

text \<open>
  C8. With the library routines taken as functions of their arguments, what a cell prints
  is the same from every state of the module's names: whatever cells ran before it, in
  whatever order and however often, and so also when the cell is run a second time. No
  name assigned by one cell, a number or a function, reaches the result of another.
\<close>

theorem cell_output_independent_of_history:
  "snd (run_cell lib c (run_cells lib history g)) = snd (run_cell lib c g')
   \<and> snd (run_cell lib c (fst (run_cell lib c g))) = snd (run_cell lib c g)"
proof
  show "snd (run_cell lib c (run_cells lib history g)) = snd (run_cell lib c g')"
    by (rule run_cell_output)
next
  show "snd (run_cell lib c (fst (run_cell lib c g))) = snd (run_cell lib c g)"
    by (rule run_cell_output)
qed

subsection \<open>binary64 evaluation of the algebra cell\<close>

lemma floor_log2_eq:
  assumes "2 powi e \<le> x" "x < 2 powi (e + 1)"
  shows "\<lfloor>log 2 x\<rfloor> = e"
proof -
  have "0 < (2::real) powi e"
    by simp
  then have pos: "0 < x"
    using assms(1) by linarith
  have lo: "(2::real) powr (of_int e) = 2 powi e"
    by (rule powr_real_of_int') simp_all
  have hi: "(2::real) powr (of_int (e + 1)) = 2 powi (e + 1)"
    by (rule powr_real_of_int') simp_all
  have a: "of_int e \<le> log 2 x"
    using assms(1) pos lo le_log_iff [of 2 x "of_int e"] by simp
  have b: "log 2 x < of_int (e + 1)"
    using assms(2) pos hi log_less_iff [of 2 x "of_int (e + 1)"] by (simp del: of_int_add)
  show ?thesis
    using a b by (simp add: floor_eq_iff)
qed

lemma b64_round_eval:
  assumes "2 powi e \<le> \<bar>x\<bar>" "\<bar>x\<bar> < 2 powi (e + 1)" "- 1022 \<le> e"
  shows "b64_round x = of_int (rne (x / 2 powi (e - 52))) * 2 powi (e - 52)"
proof -
  have "\<lfloor>log 2 \<bar>x\<bar>\<rfloor> = e"
    using assms(1,2) by (rule floor_log2_eq)
  moreover have "0 < (2::real) powi e"
    by simp
  then have "0 < \<bar>x\<bar>"
    using assms(1) by linarith
  then have "x \<noteq> 0"
    by simp
  ultimately show ?thesis
    using assms(3) by (simp add: b64_round_def Let_def max_def)
qed

text \<open>The literals: \<open>0.23\<close> is not a binary fraction, the other three are.\<close>

lemma b64_k: "b64_round 0.23 = 8286623314361713 / 2 ^ 55"
proof -
  have "b64_round 0.23 = of_int (rne (0.23 / 2 powi (- 3 - 52))) * 2 powi (- 3 - 52)"
    by (rule b64_round_eval) (simp_all add: power_int_minus)
  also have "\<dots> = 8286623314361713 / 2 ^ 55"
    by (simp add: rne_def Let_def power_int_minus)
  finally show ?thesis .
qed

lemma b64_Fa0: "b64_round 1.0 = 1"
proof -
  have "b64_round 1.0 = of_int (rne (1.0 / 2 powi (0 - 52))) * 2 powi (0 - 52)"
    by (rule b64_round_eval) (simp_all add: power_int_minus)
  also have "\<dots> = 1"
    by (simp add: rne_def Let_def power_int_minus)
  finally show ?thesis .
qed

lemma b64_v0: "b64_round 2.5 = 5 / 2"
proof -
  have "b64_round 2.5 = of_int (rne (2.5 / 2 powi (1 - 52))) * 2 powi (1 - 52)"
    by (rule b64_round_eval) (simp_all add: power_int_minus)
  also have "\<dots> = 5 / 2"
    by (simp add: rne_def Let_def power_int_minus)
  finally show ?thesis .
qed

lemma b64_V: "b64_round 10 = 10"
proof -
  have "b64_round 10 = of_int (rne (10 / 2 powi (3 - 52))) * 2 powi (3 - 52)"
    by (rule b64_round_eval) (simp_all add: power_int_minus)
  also have "\<dots> = 10"
    by (simp add: rne_def Let_def power_int_minus)
  finally show ?thesis .
qed

text \<open>\<open>V * k\<close> is 2.3000000000000003, \<open>v0 + V * k\<close> is 4.800000000000001.\<close>

lemma b64_V_times_k: "b64_mul 10 (8286623314361713 / 2 ^ 55) = 5179139571476071 / 2 ^ 51"
proof -
  have "b64_round (10 * (8286623314361713 / 2 ^ 55))
      = of_int (rne (10 * (8286623314361713 / 2 ^ 55) / 2 powi (1 - 52))) * 2 powi (1 - 52)"
    by (rule b64_round_eval) (simp_all add: power_int_minus)
  also have "\<dots> = 5179139571476071 / 2 ^ 51"
    by (simp add: rne_def Let_def power_int_minus)
  finally show ?thesis
    by (simp add: b64_mul_def)
qed

lemma b64_denominator: "b64_add (5 / 2) (5179139571476071 / 2 ^ 51) = 5404319552844596 / 2 ^ 50"
proof -
  have "b64_round (5 / 2 + 5179139571476071 / 2 ^ 51)
      = of_int (rne ((5 / 2 + 5179139571476071 / 2 ^ 51) / 2 powi (2 - 52))) * 2 powi (2 - 52)"
    by (rule b64_round_eval) (simp_all add: power_int_minus)
  also have "\<dots> = 5404319552844596 / 2 ^ 50"
    by (simp add: rne_def Let_def power_int_minus)
  finally show ?thesis
    by (simp add: b64_add_def)
qed

lemma b64_quotient: "b64_div 1 (5404319552844596 / 2 ^ 50) = Inr (7505999378950826 / 2 ^ 55)"
proof -
  have "b64_round (1 / (5404319552844596 / 2 ^ 50))
      = of_int (rne (1 / (5404319552844596 / 2 ^ 50) / 2 powi (- 3 - 52))) * 2 powi (- 3 - 52)"
    by (rule b64_round_eval) (simp_all add: power_int_minus)
  also have "\<dots> = 7505999378950826 / 2 ^ 55"
    by (simp add: rne_def Let_def power_int_minus)
  finally show ?thesis
    by (simp add: b64_div_def)
qed

lemma Ca_exit_b64_value: "Ca_exit_b64 = Inr (7505999378950826 / 2 ^ 55)"
  unfolding Ca_exit_b64_def Let_def b64_k b64_Fa0 b64_v0 b64_V b64_V_times_k b64_denominator
    b64_quotient ..

subsection \<open>Rounding to binary64 is monotone\<close>

lemma rne_bounds: "\<lfloor>x\<rfloor> \<le> rne x \<and> rne x \<le> \<lfloor>x\<rfloor> + 1"
  by (simp add: rne_def Let_def)

lemma rne_of_int: "rne (of_int n) = n"
  by (simp add: rne_def Let_def)

lemma rne_mono:
  assumes "x \<le> y"
  shows "rne x \<le> rne y"
proof (cases "\<lfloor>x\<rfloor> = \<lfloor>y\<rfloor>")
  case True
  then show ?thesis
    using assms by (simp add: rne_def Let_def)
next
  case False
  then have "\<lfloor>x\<rfloor> < \<lfloor>y\<rfloor>"
    using assms floor_mono [of x y] by linarith
  then show ?thesis
    using rne_bounds [of x] rne_bounds [of y] by linarith
qed

lemma rne_minus: "rne (- x) = - rne x"
proof (cases "x = of_int \<lfloor>x\<rfloor>")
  case True
  then have "rne (- x) = rne (of_int (- \<lfloor>x\<rfloor>))" "rne x = rne (of_int \<lfloor>x\<rfloor>)"
    by simp_all
  then show ?thesis
    by (simp only: rne_of_int)
next
  case False
  then have lt: "of_int \<lfloor>x\<rfloor> < x"
    using of_int_floor_le [of x] by linarith
  have gt: "x < of_int \<lfloor>x\<rfloor> + 1"
    by linarith
  have a: "of_int (- \<lfloor>x\<rfloor> - 1) \<le> - x"
    unfolding of_int_diff of_int_minus of_int_1 using gt by linarith
  have b: "- x < of_int (- \<lfloor>x\<rfloor> - 1) + 1"
    unfolding of_int_diff of_int_minus of_int_1 using lt by linarith
  have fl: "\<lfloor>- x\<rfloor> = - \<lfloor>x\<rfloor> - 1"
    using a b by (rule floor_unique)
  show ?thesis
    using lt by (auto simp add: rne_def Let_def fl)
qed

lemma b64_round_minus: "b64_round (- x) = - b64_round x"
  by (simp add: b64_round_def Let_def rne_minus)

lemma floor_log2_bounds:
  assumes "0 < x"
  shows "2 powi \<lfloor>log 2 x\<rfloor> \<le> x \<and> x < 2 powi (\<lfloor>log 2 x\<rfloor> + 1)"
proof -
  let ?e = "\<lfloor>log 2 x\<rfloor>"
  have lo: "(2::real) powr (of_int ?e) = 2 powi ?e"
    by (rule powr_real_of_int') simp_all
  have hi: "(2::real) powr (of_int (?e + 1)) = 2 powi (?e + 1)"
    by (rule powr_real_of_int') simp_all
  have "of_int ?e \<le> log 2 x"
    by simp
  then have a: "2 powr (of_int ?e) \<le> x"
    using assms le_log_iff [of 2 x "of_int ?e"] by simp
  have "log 2 x < of_int (?e + 1)"
    by linarith
  then have b: "x < 2 powr (of_int (?e + 1))"
    using assms log_less_iff [of 2 x "of_int (?e + 1)"] by (simp del: of_int_add)
  show ?thesis
    using a b lo hi by simp
qed

text \<open>The exponent \<open>b64_round\<close> uses for a positive number.\<close>

lemma b64_round_pos:
  assumes "0 < x"
  shows "b64_round x = of_int (rne (x / 2 powi (max \<lfloor>log 2 x\<rfloor> (- 1022) - 52)))
     * 2 powi (max \<lfloor>log 2 x\<rfloor> (- 1022) - 52)"
  using assms by (simp add: b64_round_def Let_def)

lemma powi_shift: "(2::real) powi n * 2 powi (e - n) = 2 powi e"
proof -
  have "(2::real) powi (n + (e - n)) = 2 powi n * 2 powi (e - n)"
    by (rule power_int_add) simp
  then show ?thesis
    by simp
qed

lemma b64_round_upper:
  assumes "0 < x" "x \<le> 2 powi (e + 1)" "e = max \<lfloor>log 2 x\<rfloor> (- 1022)"
  shows "b64_round x \<le> 2 powi (e + 1)"
proof -
  let ?u = "(2::real) powi (e - 52)"
  have u: "0 < ?u"
    by simp
  have top: "of_int (2 ^ 53) * ?u = 2 powi (e + 1)"
    using powi_shift [of 53 "e + 1"] by simp
  have "x / ?u \<le> 2 powi (e + 1) / ?u"
    using assms(2) u by (simp add: divide_right_mono)
  also have "2 powi (e + 1) / ?u = of_int (2 ^ 53)"
    using top u by (simp add: field_simps)
  finally have "rne (x / ?u) \<le> rne (of_int (2 ^ 53))"
    by (rule rne_mono)
  then have "rne (x / ?u) \<le> 2 ^ 53"
    by (simp only: rne_of_int)
  then have "(of_int (rne (x / ?u)) :: real) \<le> of_int (2 ^ 53)"
    by (simp only: of_int_le_iff)
  then have le: "of_int (rne (x / ?u)) * ?u \<le> of_int (2 ^ 53) * ?u"
    using u by (simp only: mult_le_cancel_right_pos)
  have "b64_round x = of_int (rne (x / ?u)) * ?u"
    using assms(1,3) by (simp add: b64_round_pos)
  also note le
  also note top
  finally show ?thesis .
qed

lemma b64_round_lower:
  assumes "0 < x" "2 powi e \<le> x" "e = max \<lfloor>log 2 x\<rfloor> (- 1022)"
  shows "2 powi e \<le> b64_round x"
proof -
  let ?u = "(2::real) powi (e - 52)"
  have u: "0 < ?u"
    by simp
  have bot: "of_int (2 ^ 52) * ?u = 2 powi e"
    using powi_shift [of 52 e] by simp
  then have "(of_int (2 ^ 52) :: real) = 2 powi e / ?u"
    using u by (simp add: field_simps)
  also have "\<dots> \<le> x / ?u"
    using assms(2) u by (simp add: divide_right_mono)
  finally have "rne (of_int (2 ^ 52)) \<le> rne (x / ?u)"
    by (rule rne_mono)
  then have "2 ^ 52 \<le> rne (x / ?u)"
    by (simp only: rne_of_int)
  then have "(of_int (2 ^ 52) :: real) \<le> of_int (rne (x / ?u))"
    by (simp only: of_int_le_iff)
  then have le: "of_int (2 ^ 52) * ?u \<le> of_int (rne (x / ?u)) * ?u"
    using u by (simp only: mult_le_cancel_right_pos)
  have "2 powi e = of_int (2 ^ 52) * ?u"
    using bot by simp
  also note le
  also have "of_int (rne (x / ?u)) * ?u = b64_round x"
    using assms(1,3) by (simp add: b64_round_pos)
  finally show ?thesis .
qed

lemma b64_round_nonneg:
  assumes "0 \<le> x"
  shows "0 \<le> b64_round x"
proof (cases "x = 0")
  case True
  then show ?thesis
    by (simp add: b64_round_def)
next
  case False
  then have pos: "0 < x"
    using assms by simp
  let ?u = "(2::real) powi (max \<lfloor>log 2 x\<rfloor> (- 1022) - 52)"
  have "rne (of_int 0) \<le> rne (x / ?u)"
    by (rule rne_mono) (use pos in simp)
  then have "0 \<le> rne (x / ?u)"
    by (simp only: rne_of_int)
  then show ?thesis
    using pos by (simp add: b64_round_pos)
qed

lemma b64_round_mono_pos:
  assumes "0 < x" "x \<le> y"
  shows "b64_round x \<le> b64_round y"
proof -
  let ?ex = "max \<lfloor>log 2 x\<rfloor> (- 1022)"
  let ?ey = "max \<lfloor>log 2 y\<rfloor> (- 1022)"
  have ypos: "0 < y"
    using assms by linarith
  have "log 2 x \<le> log 2 y"
    using assms by simp
  then have fl: "\<lfloor>log 2 x\<rfloor> \<le> \<lfloor>log 2 y\<rfloor>"
    by (rule floor_mono)
  then have le: "?ex \<le> ?ey"
    by simp
  show ?thesis
  proof (cases "?ex = ?ey")
    case True
    let ?u = "(2::real) powi (?ex - 52)"
    have "x / ?u \<le> y / ?u"
      using assms(2) by (simp add: divide_right_mono)
    then have "rne (x / ?u) \<le> rne (y / ?u)"
      by (rule rne_mono)
    then have "of_int (rne (x / ?u)) * ?u \<le> of_int (rne (y / ?u)) * ?u"
      by simp
    then show ?thesis
      using assms(1) ypos True by (simp only: b64_round_pos)
  next
    case False
    then have lt: "?ex < ?ey"
      using le by linarith
    then have ey: "?ey = \<lfloor>log 2 y\<rfloor>"
      by (simp add: max_def split: if_splits)
    have "x < 2 powi (\<lfloor>log 2 x\<rfloor> + 1)"
      using floor_log2_bounds [OF assms(1)] by simp
    also have "\<dots> \<le> 2 powi (?ex + 1)"
      by (rule power_int_increasing) simp_all
    finally have "b64_round x \<le> 2 powi (?ex + 1)"
      using assms(1) by (intro b64_round_upper) simp_all
    also have "\<dots> \<le> 2 powi ?ey"
    proof -
      have "?ex + 1 \<le> ?ey"
        using lt by linarith
      then show ?thesis
        by (rule power_int_increasing) simp
    qed
    also have "\<dots> \<le> b64_round y"
    proof (rule b64_round_lower [OF ypos])
      show "2 powi ?ey \<le> y"
        using floor_log2_bounds [OF ypos] ey by simp
    qed simp
    finally show ?thesis .
  qed
qed

lemma b64_round_mono:
  assumes "x \<le> y"
  shows "b64_round x \<le> b64_round y"
proof -
  consider "0 < x" | "x \<le> 0" "0 \<le> y" | "y < 0"
    by linarith
  then show ?thesis
  proof cases
    case 1
    then show ?thesis
      using assms by (rule b64_round_mono_pos)
  next
    case 2
    have "0 \<le> b64_round (- x)"
      using 2(1) by (intro b64_round_nonneg) simp
    then have "b64_round x \<le> 0"
      by (simp add: b64_round_minus)
    also have "0 \<le> b64_round y"
      using 2(2) by (rule b64_round_nonneg)
    finally show ?thesis .
  next
    case 3
    have "b64_round (- y) \<le> b64_round (- x)"
      using 3 assms by (intro b64_round_mono_pos) simp_all
    then show ?thesis
      by (simp add: b64_round_minus)
  qed
qed

subsection \<open>The CSTR residual and its root\<close>

lemma func_cstr_affine: "func_cstr k Fa0 v0 V Ca = Fa0 - (v0 + V * k) * Ca"
  by (simp add: func_cstr_def Let_def algebra_simps)

text \<open>
  The decimal 0.2083 is the closed form \<open>5 / 24\<close> to four places; it is itself farther than
  \<open>1e-4\<close> (relative) from \<open>5 / 24\<close>, so the tolerance of \<open>1e-4\<close> is one between a computed value
  and the closed form.
\<close>

lemma four_decimals_of_closed_form:
  "\<bar>5 / 24 - 0.2083\<bar> = (1 / 30000 :: real) \<and> \<not> within_rel 0.0001 0.2083 (5 / 24)"
  by (simp add: within_rel_def)

text \<open>
  The algebra cell prints the closed form \<open>Fa0 / (v0 + V * k)\<close>, which is \<open>5 / 24\<close>, 0.2083 to
  four decimals; computed in binary64 the value is within \<open>1e-4\<close> (relative) of the closed
  form.
\<close>

lemma algebra_cell_exit_concentration:
  "snd (cell_algebra g) = Inr (Num (1.0 / (2.5 + 10 * 0.23)))
   \<and> \<bar>1.0 / (2.5 + 10 * 0.23) - 0.2083\<bar> \<le> (0.00005::real)
   \<and> (case Ca_exit_b64 of Inl e \<Rightarrow> False
        | Inr c64 \<Rightarrow> within_rel 0.0001 (1.0 / (2.5 + 10 * 0.23)) c64)"
proof (intro conjI)
  show "snd (cell_algebra g) = Inr (Num (1.0 / (2.5 + 10 * 0.23)))"
    by (simp add: cell_algebra_prints)
next
  show "\<bar>1.0 / (2.5 + 10 * 0.23) - 0.2083\<bar> \<le> (0.00005::real)"
    by simp
next
  show "case Ca_exit_b64 of Inl e \<Rightarrow> False
        | Inr c64 \<Rightarrow> within_rel 0.0001 (1.0 / (2.5 + 10 * 0.23)) c64"
    by (simp add: Ca_exit_b64_value within_rel_def)
qed

text \<open>
  In exact arithmetic, whenever \<open>v0 + V * k > 0\<close>, the residual is affine in \<open>Ca\<close> with slope
  \<open>- (v0 + V * k)\<close>, strictly decreasing, and zero at exactly one point, \<open>Fa0 / (v0 + V * k)\<close>.
\<close>

lemma func_cstr_exact_arithmetic:
  assumes pos: "0 < v0 + V * k"
  shows "(\<forall>a b. func_cstr k Fa0 v0 V a - func_cstr k Fa0 v0 V b = - (v0 + V * k) * (a - b))
       \<and> (\<forall>a b. a < b \<longrightarrow> func_cstr k Fa0 v0 V b < func_cstr k Fa0 v0 V a)
       \<and> (\<forall>Ca. func_cstr k Fa0 v0 V Ca = 0 \<longleftrightarrow> Ca = Fa0 / (v0 + V * k))"
proof (intro conjI allI impI)
  fix a b :: real
  show "func_cstr k Fa0 v0 V a - func_cstr k Fa0 v0 V b = - (v0 + V * k) * (a - b)"
    by (simp add: func_cstr_affine algebra_simps)
next
  fix a b :: real
  assume "a < b"
  then have "(v0 + V * k) * a < (v0 + V * k) * b"
    using pos by simp
  then show "func_cstr k Fa0 v0 V b < func_cstr k Fa0 v0 V a"
    by (simp add: func_cstr_affine)
next
  fix Ca :: real
  have ne: "v0 + V * k \<noteq> 0"
    using pos by simp
  show "func_cstr k Fa0 v0 V Ca = 0 \<longleftrightarrow> Ca = Fa0 / (v0 + V * k)"
    using ne by (auto simp add: func_cstr_affine field_simps)
qed

subsection \<open>The CSTR residual in binary64\<close>

text \<open>With non-negative \<open>k\<close>, \<open>v0\<close> and \<open>V\<close> every step of the residual is monotone.\<close>

lemma func_b64_mono:
  assumes "0 \<le> k" "0 \<le> v0" "0 \<le> V" "a \<le> b"
  shows "func_b64 k Fa0 v0 V b \<le> func_b64 k Fa0 v0 V a"
proof -
  have "- k * b \<le> - k * a"
    using assms(1,4) by (simp add: mult_left_mono)
  then have ra: "b64_round (- k * b) \<le> b64_round (- k * a)"
    by (rule b64_round_mono)
  have "V * b64_round (- k * b) \<le> V * b64_round (- k * a)"
    using ra assms(3) by (rule mult_left_mono)
  then have p: "b64_round (V * b64_round (- k * b)) \<le> b64_round (V * b64_round (- k * a))"
    by (rule b64_round_mono)
  have "v0 * a \<le> v0 * b"
    using assms(2,4) by (simp add: mult_left_mono)
  then have "b64_round (v0 * a) \<le> b64_round (v0 * b)"
    by (rule b64_round_mono)
  then have "Fa0 - b64_round (v0 * b) \<le> Fa0 - b64_round (v0 * a)"
    by simp
  then have d: "b64_round (Fa0 - b64_round (v0 * b)) \<le> b64_round (Fa0 - b64_round (v0 * a))"
    by (rule b64_round_mono)
  have "b64_round (b64_round (Fa0 - b64_round (v0 * b)) + b64_round (V * b64_round (- k * b)))
      \<le> b64_round (b64_round (Fa0 - b64_round (v0 * a)) + b64_round (V * b64_round (- k * a)))"
    by (rule b64_round_mono) (use p d in simp)
  then show ?thesis
    by (simp add: func_b64_def Let_def b64_add_def b64_sub_def b64_mul_def)
qed

text \<open>
  The residual at the notebook's constants, at four doubles next to the exact root \<open>5 / 24\<close>:
  0.2083333333333332 and 0.20833333333333323, then 0.20833333333333331 and
  0.20833333333333334, the two neighbours of \<open>5 / 24\<close>. Each lemma follows the five rounded
  operations of \<open>func\<close>.
\<close>

lemma func_b64_cell_plateau_left: "func_b64_cell (7505999378950822 / 2 ^ 55) = 5 / 2 ^ 53"
proof -
  have ra: "b64_mul (- (8286623314361713 / 2 ^ 55)) (7505999378950822 / 2 ^ 55) = - (6905519428634757 / 2 ^ 57)"
  proof -
    have "b64_round ((- (8286623314361713 / 2 ^ 55)) * (7505999378950822 / 2 ^ 55))
        = of_int (rne (((- (8286623314361713 / 2 ^ 55)) * (7505999378950822 / 2 ^ 55)) / 2 powi (- 5 - 52))) * 2 powi (- 5 - 52)"
      by (rule b64_round_eval) (simp_all add: power_int_minus)
    also have "\<dots> = - (6905519428634757 / 2 ^ 57)"
      by (simp add: rne_def Let_def power_int_minus)
    finally show ?thesis
      by (simp add: b64_mul_def)
  qed
  have Fa: "b64_mul (5 / 2) (7505999378950822 / 2 ^ 55) = 586406201480533 / 2 ^ 50"
  proof -
    have "b64_round ((5 / 2) * (7505999378950822 / 2 ^ 55))
        = of_int (rne (((5 / 2) * (7505999378950822 / 2 ^ 55)) / 2 powi (- 1 - 52))) * 2 powi (- 1 - 52)"
      by (rule b64_round_eval) (simp_all add: power_int_minus)
    also have "\<dots> = 586406201480533 / 2 ^ 50"
      by (simp add: rne_def Let_def power_int_minus)
    finally show ?thesis
      by (simp add: b64_mul_def)
  qed
  have d: "b64_sub 1 (586406201480533 / 2 ^ 50) = 539493705362091 / 2 ^ 50"
  proof -
    have "b64_round (1 - (586406201480533 / 2 ^ 50))
        = of_int (rne ((1 - (586406201480533 / 2 ^ 50)) / 2 powi (- 2 - 52))) * 2 powi (- 2 - 52)"
      by (rule b64_round_eval) (simp_all add: power_int_minus)
    also have "\<dots> = 539493705362091 / 2 ^ 50"
      by (simp add: rne_def Let_def power_int_minus)
    finally show ?thesis
      by (simp add: b64_sub_def)
  qed
  have p: "b64_mul 10 (- (6905519428634757 / 2 ^ 57)) = - (4315949642896723 / 2 ^ 53)"
  proof -
    have "b64_round (10 * (- (6905519428634757 / 2 ^ 57)))
        = of_int (rne ((10 * (- (6905519428634757 / 2 ^ 57))) / 2 powi (- 2 - 52))) * 2 powi (- 2 - 52)"
      by (rule b64_round_eval) (simp_all add: power_int_minus)
    also have "\<dots> = - (4315949642896723 / 2 ^ 53)"
      by (simp add: rne_def Let_def power_int_minus)
    finally show ?thesis
      by (simp add: b64_mul_def)
  qed
  have s: "b64_add (539493705362091 / 2 ^ 50) (- (4315949642896723 / 2 ^ 53)) = 5 / 2 ^ 53"
  proof -
    have "b64_round ((539493705362091 / 2 ^ 50) + (- (4315949642896723 / 2 ^ 53)))
        = of_int (rne (((539493705362091 / 2 ^ 50) + (- (4315949642896723 / 2 ^ 53))) / 2 powi (- 51 - 52))) * 2 powi (- 51 - 52)"
      by (rule b64_round_eval) (simp_all add: power_int_minus)
    also have "\<dots> = 5 / 2 ^ 53"
      by (simp add: rne_def Let_def power_int_minus)
    finally show ?thesis
      by (simp add: b64_add_def)
  qed
  show ?thesis
    unfolding func_b64_cell_def b64_k b64_Fa0 b64_v0 b64_V func_b64_def Let_def ra Fa d p s ..
qed

lemma func_b64_cell_plateau_right: "func_b64_cell (7505999378950823 / 2 ^ 55) = 5 / 2 ^ 53"
proof -
  have ra: "b64_mul (- (8286623314361713 / 2 ^ 55)) (7505999378950823 / 2 ^ 55) = - (6905519428634757 / 2 ^ 57)"
  proof -
    have "b64_round ((- (8286623314361713 / 2 ^ 55)) * (7505999378950823 / 2 ^ 55))
        = of_int (rne (((- (8286623314361713 / 2 ^ 55)) * (7505999378950823 / 2 ^ 55)) / 2 powi (- 5 - 52))) * 2 powi (- 5 - 52)"
      by (rule b64_round_eval) (simp_all add: power_int_minus)
    also have "\<dots> = - (6905519428634757 / 2 ^ 57)"
      by (simp add: rne_def Let_def power_int_minus)
    finally show ?thesis
      by (simp add: b64_mul_def)
  qed
  have Fa: "b64_mul (5 / 2) (7505999378950823 / 2 ^ 55) = 586406201480533 / 2 ^ 50"
  proof -
    have "b64_round ((5 / 2) * (7505999378950823 / 2 ^ 55))
        = of_int (rne (((5 / 2) * (7505999378950823 / 2 ^ 55)) / 2 powi (- 1 - 52))) * 2 powi (- 1 - 52)"
      by (rule b64_round_eval) (simp_all add: power_int_minus)
    also have "\<dots> = 586406201480533 / 2 ^ 50"
      by (simp add: rne_def Let_def power_int_minus)
    finally show ?thesis
      by (simp add: b64_mul_def)
  qed
  have d: "b64_sub 1 (586406201480533 / 2 ^ 50) = 539493705362091 / 2 ^ 50"
  proof -
    have "b64_round (1 - (586406201480533 / 2 ^ 50))
        = of_int (rne ((1 - (586406201480533 / 2 ^ 50)) / 2 powi (- 2 - 52))) * 2 powi (- 2 - 52)"
      by (rule b64_round_eval) (simp_all add: power_int_minus)
    also have "\<dots> = 539493705362091 / 2 ^ 50"
      by (simp add: rne_def Let_def power_int_minus)
    finally show ?thesis
      by (simp add: b64_sub_def)
  qed
  have p: "b64_mul 10 (- (6905519428634757 / 2 ^ 57)) = - (4315949642896723 / 2 ^ 53)"
  proof -
    have "b64_round (10 * (- (6905519428634757 / 2 ^ 57)))
        = of_int (rne ((10 * (- (6905519428634757 / 2 ^ 57))) / 2 powi (- 2 - 52))) * 2 powi (- 2 - 52)"
      by (rule b64_round_eval) (simp_all add: power_int_minus)
    also have "\<dots> = - (4315949642896723 / 2 ^ 53)"
      by (simp add: rne_def Let_def power_int_minus)
    finally show ?thesis
      by (simp add: b64_mul_def)
  qed
  have s: "b64_add (539493705362091 / 2 ^ 50) (- (4315949642896723 / 2 ^ 53)) = 5 / 2 ^ 53"
  proof -
    have "b64_round ((539493705362091 / 2 ^ 50) + (- (4315949642896723 / 2 ^ 53)))
        = of_int (rne (((539493705362091 / 2 ^ 50) + (- (4315949642896723 / 2 ^ 53))) / 2 powi (- 51 - 52))) * 2 powi (- 51 - 52)"
      by (rule b64_round_eval) (simp_all add: power_int_minus)
    also have "\<dots> = 5 / 2 ^ 53"
      by (simp add: rne_def Let_def power_int_minus)
    finally show ?thesis
      by (simp add: b64_add_def)
  qed
  show ?thesis
    unfolding func_b64_cell_def b64_k b64_Fa0 b64_v0 b64_V func_b64_def Let_def ra Fa d p s ..
qed

lemma func_b64_cell_below: "func_b64_cell (7505999378950826 / 2 ^ 55) = 1 / 2 ^ 53"
proof -
  have ra: "b64_mul (- (8286623314361713 / 2 ^ 55)) (7505999378950826 / 2 ^ 55) = - (863189928579345 / 2 ^ 54)"
  proof -
    have "b64_round ((- (8286623314361713 / 2 ^ 55)) * (7505999378950826 / 2 ^ 55))
        = of_int (rne (((- (8286623314361713 / 2 ^ 55)) * (7505999378950826 / 2 ^ 55)) / 2 powi (- 5 - 52))) * 2 powi (- 5 - 52)"
      by (rule b64_round_eval) (simp_all add: power_int_minus)
    also have "\<dots> = - (863189928579345 / 2 ^ 54)"
      by (simp add: rne_def Let_def power_int_minus)
    finally show ?thesis
      by (simp add: b64_mul_def)
  qed
  have Fa: "b64_mul (5 / 2) (7505999378950826 / 2 ^ 55) = 2345624805922133 / 2 ^ 52"
  proof -
    have "b64_round ((5 / 2) * (7505999378950826 / 2 ^ 55))
        = of_int (rne (((5 / 2) * (7505999378950826 / 2 ^ 55)) / 2 powi (- 1 - 52))) * 2 powi (- 1 - 52)"
      by (rule b64_round_eval) (simp_all add: power_int_minus)
    also have "\<dots> = 2345624805922133 / 2 ^ 52"
      by (simp add: rne_def Let_def power_int_minus)
    finally show ?thesis
      by (simp add: b64_mul_def)
  qed
  have d: "b64_sub 1 (2345624805922133 / 2 ^ 52) = 2157974821448363 / 2 ^ 52"
  proof -
    have "b64_round (1 - (2345624805922133 / 2 ^ 52))
        = of_int (rne ((1 - (2345624805922133 / 2 ^ 52)) / 2 powi (- 2 - 52))) * 2 powi (- 2 - 52)"
      by (rule b64_round_eval) (simp_all add: power_int_minus)
    also have "\<dots> = 2157974821448363 / 2 ^ 52"
      by (simp add: rne_def Let_def power_int_minus)
    finally show ?thesis
      by (simp add: b64_sub_def)
  qed
  have p: "b64_mul 10 (- (863189928579345 / 2 ^ 54)) = - (4315949642896725 / 2 ^ 53)"
  proof -
    have "b64_round (10 * (- (863189928579345 / 2 ^ 54)))
        = of_int (rne ((10 * (- (863189928579345 / 2 ^ 54))) / 2 powi (- 2 - 52))) * 2 powi (- 2 - 52)"
      by (rule b64_round_eval) (simp_all add: power_int_minus)
    also have "\<dots> = - (4315949642896725 / 2 ^ 53)"
      by (simp add: rne_def Let_def power_int_minus)
    finally show ?thesis
      by (simp add: b64_mul_def)
  qed
  have s: "b64_add (2157974821448363 / 2 ^ 52) (- (4315949642896725 / 2 ^ 53)) = 1 / 2 ^ 53"
  proof -
    have "b64_round ((2157974821448363 / 2 ^ 52) + (- (4315949642896725 / 2 ^ 53)))
        = of_int (rne (((2157974821448363 / 2 ^ 52) + (- (4315949642896725 / 2 ^ 53))) / 2 powi (- 53 - 52))) * 2 powi (- 53 - 52)"
      by (rule b64_round_eval) (simp_all add: power_int_minus)
    also have "\<dots> = 1 / 2 ^ 53"
      by (simp add: rne_def Let_def power_int_minus)
    finally show ?thesis
      by (simp add: b64_add_def)
  qed
  show ?thesis
    unfolding func_b64_cell_def b64_k b64_Fa0 b64_v0 b64_V func_b64_def Let_def ra Fa d p s ..
qed

lemma func_b64_cell_above: "func_b64_cell (7505999378950827 / 2 ^ 55) = - (1 / 2 ^ 54)"
proof -
  have ra: "b64_mul (- (8286623314361713 / 2 ^ 55)) (7505999378950827 / 2 ^ 55) = - (6905519428634761 / 2 ^ 57)"
  proof -
    have "b64_round ((- (8286623314361713 / 2 ^ 55)) * (7505999378950827 / 2 ^ 55))
        = of_int (rne (((- (8286623314361713 / 2 ^ 55)) * (7505999378950827 / 2 ^ 55)) / 2 powi (- 5 - 52))) * 2 powi (- 5 - 52)"
      by (rule b64_round_eval) (simp_all add: power_int_minus)
    also have "\<dots> = - (6905519428634761 / 2 ^ 57)"
      by (simp add: rne_def Let_def power_int_minus)
    finally show ?thesis
      by (simp add: b64_mul_def)
  qed
  have Fa: "b64_mul (5 / 2) (7505999378950827 / 2 ^ 55) = 4691249611844267 / 2 ^ 53"
  proof -
    have "b64_round ((5 / 2) * (7505999378950827 / 2 ^ 55))
        = of_int (rne (((5 / 2) * (7505999378950827 / 2 ^ 55)) / 2 powi (- 1 - 52))) * 2 powi (- 1 - 52)"
      by (rule b64_round_eval) (simp_all add: power_int_minus)
    also have "\<dots> = 4691249611844267 / 2 ^ 53"
      by (simp add: rne_def Let_def power_int_minus)
    finally show ?thesis
      by (simp add: b64_mul_def)
  qed
  have d: "b64_sub 1 (4691249611844267 / 2 ^ 53) = 4315949642896725 / 2 ^ 53"
  proof -
    have "b64_round (1 - (4691249611844267 / 2 ^ 53))
        = of_int (rne ((1 - (4691249611844267 / 2 ^ 53)) / 2 powi (- 2 - 52))) * 2 powi (- 2 - 52)"
      by (rule b64_round_eval) (simp_all add: power_int_minus)
    also have "\<dots> = 4315949642896725 / 2 ^ 53"
      by (simp add: rne_def Let_def power_int_minus)
    finally show ?thesis
      by (simp add: b64_sub_def)
  qed
  have p: "b64_mul 10 (- (6905519428634761 / 2 ^ 57)) = - (8631899285793451 / 2 ^ 54)"
  proof -
    have "b64_round (10 * (- (6905519428634761 / 2 ^ 57)))
        = of_int (rne ((10 * (- (6905519428634761 / 2 ^ 57))) / 2 powi (- 2 - 52))) * 2 powi (- 2 - 52)"
      by (rule b64_round_eval) (simp_all add: power_int_minus)
    also have "\<dots> = - (8631899285793451 / 2 ^ 54)"
      by (simp add: rne_def Let_def power_int_minus)
    finally show ?thesis
      by (simp add: b64_mul_def)
  qed
  have s: "b64_add (4315949642896725 / 2 ^ 53) (- (8631899285793451 / 2 ^ 54)) = - (1 / 2 ^ 54)"
  proof -
    have "b64_round ((4315949642896725 / 2 ^ 53) + (- (8631899285793451 / 2 ^ 54)))
        = of_int (rne (((4315949642896725 / 2 ^ 53) + (- (8631899285793451 / 2 ^ 54))) / 2 powi (- 54 - 52))) * 2 powi (- 54 - 52)"
      by (rule b64_round_eval) (simp_all add: power_int_minus)
    also have "\<dots> = - (1 / 2 ^ 54)"
      by (simp add: rne_def Let_def power_int_minus)
    finally show ?thesis
      by (simp add: b64_add_def)
  qed
  show ?thesis
    unfolding func_b64_cell_def b64_k b64_Fa0 b64_v0 b64_V func_b64_def Let_def ra Fa d p s ..
qed

text \<open>The arguments used below are doubles.\<close>

lemma is_b64_below: "is_b64 (7505999378950826 / 2 ^ 55)"
proof -
  have "b64_round (7505999378950826 / 2 ^ 55)
      = of_int (rne ((7505999378950826 / 2 ^ 55) / 2 powi (- 3 - 52))) * 2 powi (- 3 - 52)"
    by (rule b64_round_eval) (simp_all add: power_int_minus)
  also have "\<dots> = 7505999378950826 / 2 ^ 55"
    by (simp add: rne_def Let_def power_int_minus)
  finally show ?thesis
    by (simp add: is_b64_def)
qed

lemma is_b64_above: "is_b64 (7505999378950827 / 2 ^ 55)"
proof -
  have "b64_round (7505999378950827 / 2 ^ 55)
      = of_int (rne ((7505999378950827 / 2 ^ 55) / 2 powi (- 3 - 52))) * 2 powi (- 3 - 52)"
    by (rule b64_round_eval) (simp_all add: power_int_minus)
  also have "\<dots> = 7505999378950827 / 2 ^ 55"
    by (simp add: rne_def Let_def power_int_minus)
  finally show ?thesis
    by (simp add: is_b64_def)
qed

lemma is_b64_plateau_left: "is_b64 (7505999378950822 / 2 ^ 55)"
proof -
  have "b64_round (7505999378950822 / 2 ^ 55)
      = of_int (rne ((7505999378950822 / 2 ^ 55) / 2 powi (- 3 - 52))) * 2 powi (- 3 - 52)"
    by (rule b64_round_eval) (simp_all add: power_int_minus)
  also have "\<dots> = 7505999378950822 / 2 ^ 55"
    by (simp add: rne_def Let_def power_int_minus)
  finally show ?thesis
    by (simp add: is_b64_def)
qed

lemma is_b64_plateau_right: "is_b64 (7505999378950823 / 2 ^ 55)"
proof -
  have "b64_round (7505999378950823 / 2 ^ 55)
      = of_int (rne ((7505999378950823 / 2 ^ 55) / 2 powi (- 3 - 52))) * 2 powi (- 3 - 52)"
    by (rule b64_round_eval) (simp_all add: power_int_minus)
  also have "\<dots> = 7505999378950823 / 2 ^ 55"
    by (simp add: rne_def Let_def power_int_minus)
  finally show ?thesis
    by (simp add: is_b64_def)
qed

lemma is_b64_quarter: "is_b64 (1 / 4)"
proof -
  have "b64_round (1 / 4) = of_int (rne ((1 / 4) / 2 powi (- 2 - 52))) * 2 powi (- 2 - 52)"
    by (rule b64_round_eval) (simp_all add: power_int_minus)
  also have "\<dots> = 1 / 4"
    by (simp add: rne_def Let_def power_int_minus)
  finally show ?thesis
    by (simp add: is_b64_def)
qed

text \<open>No double lies strictly between 0.20833333333333331 and 0.20833333333333334.\<close>

lemma no_b64_between:
  assumes lo: "7505999378950826 / 2 ^ 55 < x" and hi: "x < 7505999378950827 / 2 ^ 55"
  shows "\<not> is_b64 x"
proof
  assume "is_b64 x"
  then have fixed: "b64_round x = x"
    by (simp add: is_b64_def)
  have pos: "0 < x"
    using lo by (simp add: less_trans [OF _ lo])
  have "b64_round x = of_int (rne (x / 2 powi (- 3 - 52))) * 2 powi (- 3 - 52)"
  proof (rule b64_round_eval)
    show "2 powi (- 3) \<le> \<bar>x\<bar>"
      using lo by (simp add: power_int_minus)
    show "\<bar>x\<bar> < 2 powi (- 3 + 1)"
      using hi pos by (simp add: power_int_minus)
  qed simp
  then have "x = of_int (rne (x * 2 ^ 55)) / 2 ^ 55"
    using fixed by (simp add: power_int_minus field_simps)
  then have eq: "x * 2 ^ 55 = of_int (rne (x * 2 ^ 55))"
    by (simp add: field_simps)
  have "7505999378950826 < x * 2 ^ 55"
    using lo by (simp add: field_simps)
  then have a: "(7505999378950826::real) < of_int (rne (x * 2 ^ 55))"
    using eq by simp
  have "x * 2 ^ 55 < 7505999378950827"
    using hi by (simp add: field_simps)
  then have b: "of_int (rne (x * 2 ^ 55)) < (7505999378950827::real)"
    using eq by simp
  have "7505999378950826 < rne (x * 2 ^ 55)"
    using a by linarith
  moreover have "rne (x * 2 ^ 55) < 7505999378950827"
    using b by linarith
  ultimately show False
    by linarith
qed

text \<open>
  At the notebook's constants the residual is non-increasing, so its sign at every double
  is decided by its values at the two neighbours of \<open>5 / 24\<close>.
\<close>

lemma func_b64_cell_mono:
  assumes "a \<le> b"
  shows "func_b64_cell b \<le> func_b64_cell a"
  unfolding func_b64_cell_def b64_k b64_Fa0 b64_v0 b64_V
  using _ _ _ assms by (rule func_b64_mono) simp_all

lemma func_b64_cell_sign:
  assumes "is_b64 Ca"
  shows "(Ca \<le> 7505999378950826 / 2 ^ 55 \<and> 0 < func_b64_cell Ca)
       \<or> (7505999378950827 / 2 ^ 55 \<le> Ca \<and> func_b64_cell Ca < 0)"
proof -
  consider "Ca \<le> 7505999378950826 / 2 ^ 55" | "7505999378950827 / 2 ^ 55 \<le> Ca"
    | "7505999378950826 / 2 ^ 55 < Ca" "Ca < 7505999378950827 / 2 ^ 55"
    by linarith
  then show ?thesis
  proof cases
    case 1
    then have "func_b64_cell (7505999378950826 / 2 ^ 55) \<le> func_b64_cell Ca"
      by (rule func_b64_cell_mono)
    then have "1 / 2 ^ 53 \<le> func_b64_cell Ca"
      by (simp only: func_b64_cell_below)
    moreover have "(0::real) < 1 / 2 ^ 53"
      by simp
    ultimately have "0 < func_b64_cell Ca"
      by linarith
    then show ?thesis
      using 1 by simp
  next
    case 2
    then have "func_b64_cell Ca \<le> func_b64_cell (7505999378950827 / 2 ^ 55)"
      by (rule func_b64_cell_mono)
    then have "func_b64_cell Ca \<le> - (1 / 2 ^ 54)"
      by (simp only: func_b64_cell_above)
    moreover have "- (1 / 2 ^ 54) < (0::real)"
      by simp
    ultimately have "func_b64_cell Ca < 0"
      by linarith
    then show ?thesis
      using 2 by simp
  next
    case 3
    then have "\<not> is_b64 Ca"
      by (rule no_b64_between)
    then show ?thesis
      using assms by simp
  qed
qed

subsection \<open>Where the binary64 residual changes sign\<close>

text \<open>
  Rounding moves a number by at most the fraction \<open>2 ^ - 53\<close> of its magnitude, or by
  \<open>2 ^ - 1075\<close> where the result is subnormal.
\<close>

lemma rne_error: "\<bar>of_int (rne y) - y\<bar> \<le> 1 / 2"
proof -
  have "of_int \<lfloor>y\<rfloor> \<le> y" "y < of_int \<lfloor>y\<rfloor> + 1"
    by linarith+
  then show ?thesis
    by (simp add: rne_def Let_def)
qed

lemma b64_round_error_pos:
  assumes "0 < x"
  shows "\<bar>b64_round x - x\<bar> \<le> x / 2 ^ 53 + 1 / 2 ^ 1075"
proof -
  define e where "e = max \<lfloor>log 2 x\<rfloor> (- 1022)"
  define U where "U = (2::real) powi (e - 52)"
  have U: "0 < U"
    by (simp add: U_def)
  have r: "b64_round x = of_int (rne (x / U)) * U"
    using assms by (simp add: b64_round_pos e_def U_def)
  have "b64_round x - x = (of_int (rne (x / U)) - x / U) * U"
    using U by (simp add: r field_simps)
  then have "\<bar>b64_round x - x\<bar> = \<bar>of_int (rne (x / U)) - x / U\<bar> * U"
    using U by (simp add: abs_mult)
  also have "\<dots> \<le> 1 / 2 * U"
    using U rne_error [of "x / U"] by (simp only: mult_le_cancel_right_pos)
  finally have half: "\<bar>b64_round x - x\<bar> \<le> U / 2"
    by simp
  have Ue: "U * 2 ^ 52 = 2 powi e"
    using powi_shift [of 52 e] by (simp add: U_def mult.commute)
  show ?thesis
  proof (cases "- 1022 \<le> \<lfloor>log 2 x\<rfloor>")
    case True
    then have "e = \<lfloor>log 2 x\<rfloor>"
      by (simp add: e_def)
    then have "2 powi e \<le> x"
      using floor_log2_bounds [OF assms] by simp
    then have "U * 2 ^ 52 \<le> x"
      using Ue by simp
    then have "U / 2 \<le> x / 2 ^ 53"
      by (simp add: field_simps)
    moreover have "(0::real) \<le> 1 / 2 ^ 1075"
      by simp
    ultimately show ?thesis
      using half by linarith
  next
    case False
    then have "e = - 1022"
      by (simp add: e_def)
    then have "U = 2 powi (- 1074)"
      by (simp add: U_def)
    then have "U / 2 = 1 / 2 ^ 1075"
      by (simp add: power_int_minus)
    then show ?thesis
      using half assms by simp
  qed
qed

lemma b64_round_error: "\<bar>b64_round x - x\<bar> \<le> \<bar>x\<bar> / 2 ^ 53 + 1 / 2 ^ 1075"
proof -
  consider "0 < x" | "x = 0" | "x < 0"
    by linarith
  then show ?thesis
  proof cases
    case 1
    then show ?thesis
      using b64_round_error_pos [of x] by simp
  next
    case 2
    then show ?thesis
      by (simp add: b64_round_def)
  next
    case 3
    then have "\<bar>b64_round (- x) - (- x)\<bar> \<le> (- x) / 2 ^ 53 + 1 / 2 ^ 1075"
      by (intro b64_round_error_pos) simp
    moreover have "\<bar>b64_round (- x) - (- x)\<bar> = \<bar>b64_round x - x\<bar>"
      unfolding b64_round_minus by (simp add: abs_minus_commute)
    ultimately show ?thesis
      using 3 by simp
  qed
qed

lemma b64_round_tiny: "b64_round (1 / 2 ^ 1022) = 1 / 2 ^ 1022"
proof -
  have "b64_round (1 / 2 ^ 1022)
      = of_int (rne ((1 / 2 ^ 1022) / 2 powi (- 1022 - 52))) * 2 powi (- 1022 - 52)"
    by (rule b64_round_eval) (simp_all add: power_int_minus)
  also have "\<dots> = 1 / 2 ^ 1022"
    by (simp add: rne_def Let_def power_int_minus)
  finally show ?thesis .
qed

lemma b64_round_pos_sign:
  assumes "1 / 2 ^ 1022 \<le> x"
  shows "0 < b64_round x"
proof -
  have "b64_round (1 / 2 ^ 1022) \<le> b64_round x"
    using assms by (rule b64_round_mono)
  then have "1 / 2 ^ 1022 \<le> b64_round x"
    by (simp only: b64_round_tiny)
  moreover have "(0::real) < 1 / 2 ^ 1022"
    by simp
  ultimately show ?thesis
    by linarith
qed

lemma b64_round_neg_sign:
  assumes "x \<le> - (1 / 2 ^ 1022)"
  shows "b64_round x < 0"
proof -
  have "0 < b64_round (- x)"
    using assms by (intro b64_round_pos_sign) simp
  then show ?thesis
    by (simp add: b64_round_minus)
qed

text \<open>
  The five roundings of \<open>func\<close> at a non-negative \<open>Ca\<close>, for a positive \<open>Fa0\<close>: the residual is
  positive where \<open>(v0 + V * k) * Ca\<close> stays below \<open>Fa0\<close> by the fraction \<open>2 ^ - 50\<close>, negative
  where it exceeds \<open>Fa0\<close> by that fraction.
\<close>

lemma b64_round_upper_bound:
  assumes "0 \<le> x"
  shows "b64_round x \<le> x * (1 + 1 / 2 ^ 53) + 1 / 2 ^ 1075"
  using b64_round_error [of x] assms by (simp add: algebra_simps)

lemma b64_round_lower_bound:
  assumes "0 \<le> x"
  shows "x * (1 - 1 / 2 ^ 53) - 1 / 2 ^ 1075 \<le> b64_round x"
  using b64_round_error [of x] assms by (simp add: algebra_simps)

lemma func_b64_unfold:
  "func_b64 k Fa0 v0 V c
   = b64_round (b64_round (Fa0 - b64_round (v0 * c)) - b64_round (V * b64_round (k * c)))"
proof -
  have "b64_round (- k * c) = - b64_round (k * c)"
    using b64_round_minus [of "k * c"] by simp
  moreover have "b64_round (V * - b64_round (k * c)) = - b64_round (V * b64_round (k * c))"
    using b64_round_minus [of "V * b64_round (k * c)"] by simp
  ultimately show ?thesis
    by (simp add: func_b64_def Let_def b64_add_def b64_sub_def b64_mul_def)
qed

lemma func_b64_positive:
  assumes k: "0 \<le> k" and v0: "0 \<le> v0" and V: "0 \<le> V" "V \<le> 2 ^ 300"
    and Fa0: "1 / 2 ^ 300 \<le> Fa0" and c: "0 \<le> c"
    and below: "(v0 + V * k) * c \<le> Fa0 * (1 - 1 / 2 ^ 50)"
  shows "0 < func_b64 k Fa0 v0 V c"
proof -
  define X where "X = v0 * c"
  define Y where "Y = V * (k * c)"
  define a where "a = b64_round (k * c)"
  define Fa where "Fa = b64_round X"
  define q where "q = b64_round (V * a)"
  define d where "d = b64_round (Fa0 - Fa)"
  have kc: "0 \<le> k * c"
    using k c by simp
  have X: "0 \<le> X"
    using v0 c by (simp add: X_def)
  have Y: "0 \<le> Y"
    using V(1) kc by (simp add: Y_def)
  have XY: "X + Y \<le> Fa0 * (1 - 1 / 2 ^ 50)"
    using below by (simp add: X_def Y_def algebra_simps)
  have a0: "0 \<le> a"
    unfolding a_def using kc by (rule b64_round_nonneg)
  have a1: "a \<le> k * c * (1 + 1 / 2 ^ 53) + 1 / 2 ^ 1075"
    unfolding a_def using kc by (rule b64_round_upper_bound)
  have "V * a \<le> V * (k * c * (1 + 1 / 2 ^ 53) + 1 / 2 ^ 1075)"
    using a1 V(1) by (rule mult_left_mono)
  then have Va: "V * a \<le> Y * (1 + 1 / 2 ^ 53) + V * (1 / 2 ^ 1075)"
    by (simp add: Y_def algebra_simps)
  have Va0: "0 \<le> V * a"
    using V(1) a0 by simp
  have q1: "q \<le> V * a * (1 + 1 / 2 ^ 53) + 1 / 2 ^ 1075"
    unfolding q_def using Va0 by (rule b64_round_upper_bound)
  have Fa0': "0 \<le> Fa"
    unfolding Fa_def using X by (rule b64_round_nonneg)
  have Fa1: "Fa \<le> X * (1 + 1 / 2 ^ 53) + 1 / 2 ^ 1075"
    unfolding Fa_def using X by (rule b64_round_upper_bound)
  define w where "w = \<bar>Fa0 - Fa\<bar> / 2 ^ 53"
  have d1: "\<bar>d - (Fa0 - Fa)\<bar> \<le> w + 1 / 2 ^ 1075"
    unfolding d_def w_def by (rule b64_round_error)
  have Fa0p: "0 \<le> Fa0"
    using Fa0 by (simp add: order_trans [OF _ Fa0])
  have d2: "Fa0 * (1 - 1 / 2 ^ 53) - Fa * (1 + 1 / 2 ^ 53) - 1 / 2 ^ 1075 \<le> d"
  proof -
    have "\<bar>Fa0 - Fa\<bar> \<le> Fa0 + Fa"
      using Fa0' Fa0p by linarith
    then have "w \<le> (Fa0 + Fa) / 2 ^ 53"
      unfolding w_def by (rule divide_right_mono) simp
    then show ?thesis
      using d1 by simp
  qed
  have q2: "q \<le> Y * (1 + 1 / 2 ^ 53) * (1 + 1 / 2 ^ 53)
      + V * (1 / 2 ^ 1075) * (1 + 1 / 2 ^ 53) + 1 / 2 ^ 1075"
    using q1 Va by simp
  have Fa2: "Fa * (1 + 1 / 2 ^ 53) \<le> X * (1 + 1 / 2 ^ 53) * (1 + 1 / 2 ^ 53)
      + 1 / 2 ^ 1075 * (1 + 1 / 2 ^ 53)"
    using Fa1 by simp
  have s1: "Fa0 * (1 - 1 / 2 ^ 53) - (X + Y) * (1 + 1 / 2 ^ 53) * (1 + 1 / 2 ^ 53)
      - V * (1 / 2 ^ 1075) * (1 + 1 / 2 ^ 53) - 4 / 2 ^ 1075 \<le> d - q"
    using d2 q2 Fa2 by simp argo
  have s2: "(X + Y) * (1 + 1 / 2 ^ 53) * (1 + 1 / 2 ^ 53)
      \<le> Fa0 * (1 - 1 / 2 ^ 50) * (1 + 1 / 2 ^ 53) * (1 + 1 / 2 ^ 53)"
    using XY by simp
  have s3: "Fa0 * (5 / 2 ^ 53) - V * (1 / 2 ^ 1075) * (1 + 1 / 2 ^ 53) - 4 / 2 ^ 1075 \<le> d - q"
    using s1 s2 Fa0p by simp argo
  have key: "1 / 2 ^ 1022 \<le> d - q"
    using s3 V Fa0 by simp
  have "func_b64 k Fa0 v0 V c = b64_round (d - q)"
    by (simp add: func_b64_unfold d_def q_def Fa_def a_def X_def)
  then show ?thesis
    using b64_round_pos_sign [OF key] by simp
qed

lemma func_b64_negative:
  assumes k: "0 \<le> k" and v0: "0 \<le> v0" and V: "0 \<le> V" "V \<le> 2 ^ 300"
    and Fa0: "1 / 2 ^ 300 \<le> Fa0" and c: "0 \<le> c"
    and above: "Fa0 * (1 + 1 / 2 ^ 50) \<le> (v0 + V * k) * c"
  shows "func_b64 k Fa0 v0 V c < 0"
proof -
  define X where "X = v0 * c"
  define Y where "Y = V * (k * c)"
  define a where "a = b64_round (k * c)"
  define Fa where "Fa = b64_round X"
  define q where "q = b64_round (V * a)"
  define d where "d = b64_round (Fa0 - Fa)"
  have kc: "0 \<le> k * c"
    using k c by simp
  have X: "0 \<le> X"
    using v0 c by (simp add: X_def)
  have Y: "0 \<le> Y"
    using V(1) kc by (simp add: Y_def)
  have XY: "Fa0 * (1 + 1 / 2 ^ 50) \<le> X + Y"
    using above by (simp add: X_def Y_def algebra_simps)
  have a0: "0 \<le> a"
    unfolding a_def using kc by (rule b64_round_nonneg)
  have a1: "k * c * (1 - 1 / 2 ^ 53) - 1 / 2 ^ 1075 \<le> a"
    unfolding a_def using kc by (rule b64_round_lower_bound)
  have "V * (k * c * (1 - 1 / 2 ^ 53) - 1 / 2 ^ 1075) \<le> V * a"
    using a1 V(1) by (rule mult_left_mono)
  then have Va: "Y * (1 - 1 / 2 ^ 53) - V * (1 / 2 ^ 1075) \<le> V * a"
    by (simp add: Y_def algebra_simps)
  have Va0: "0 \<le> V * a"
    using V(1) a0 by simp
  have q1: "V * a * (1 - 1 / 2 ^ 53) - 1 / 2 ^ 1075 \<le> q"
    unfolding q_def using Va0 by (rule b64_round_lower_bound)
  have Fa0': "0 \<le> Fa"
    unfolding Fa_def using X by (rule b64_round_nonneg)
  have Fa1: "X * (1 - 1 / 2 ^ 53) - 1 / 2 ^ 1075 \<le> Fa"
    unfolding Fa_def using X by (rule b64_round_lower_bound)
  define w where "w = \<bar>Fa0 - Fa\<bar> / 2 ^ 53"
  have d1: "\<bar>d - (Fa0 - Fa)\<bar> \<le> w + 1 / 2 ^ 1075"
    unfolding d_def w_def by (rule b64_round_error)
  have Fa0p: "0 \<le> Fa0"
    using Fa0 by (simp add: order_trans [OF _ Fa0])
  have d2: "d \<le> Fa0 * (1 + 1 / 2 ^ 53) - Fa * (1 - 1 / 2 ^ 53) + 1 / 2 ^ 1075"
  proof -
    have "\<bar>Fa0 - Fa\<bar> \<le> Fa0 + Fa"
      using Fa0' Fa0p by linarith
    then have "w \<le> (Fa0 + Fa) / 2 ^ 53"
      unfolding w_def by (rule divide_right_mono) simp
    then show ?thesis
      using d1 by simp
  qed
  have q2: "Y * (1 - 1 / 2 ^ 53) * (1 - 1 / 2 ^ 53)
      - V * (1 / 2 ^ 1075) * (1 - 1 / 2 ^ 53) - 1 / 2 ^ 1075 \<le> q"
    using q1 Va by simp
  have Fa2: "X * (1 - 1 / 2 ^ 53) * (1 - 1 / 2 ^ 53) - 1 / 2 ^ 1075 * (1 - 1 / 2 ^ 53)
      \<le> Fa * (1 - 1 / 2 ^ 53)"
    using Fa1 by simp
  have s1: "d - q \<le> Fa0 * (1 + 1 / 2 ^ 53) - (X + Y) * (1 - 1 / 2 ^ 53) * (1 - 1 / 2 ^ 53)
      + V * (1 / 2 ^ 1075) * (1 - 1 / 2 ^ 53) + 4 / 2 ^ 1075"
    using d2 q2 Fa2 by simp argo
  have s2: "Fa0 * (1 + 1 / 2 ^ 50) * (1 - 1 / 2 ^ 53) * (1 - 1 / 2 ^ 53)
      \<le> (X + Y) * (1 - 1 / 2 ^ 53) * (1 - 1 / 2 ^ 53)"
    using XY by simp
  have s3: "d - q \<le> - (Fa0 * (4 / 2 ^ 53)) + V * (1 / 2 ^ 1075) * (1 - 1 / 2 ^ 53) + 4 / 2 ^ 1075"
    using s1 s2 Fa0p by simp argo
  have key: "d - q \<le> - (1 / 2 ^ 1022)"
    using s3 V Fa0 by simp
  have "func_b64 k Fa0 v0 V c = b64_round (d - q)"
    by (simp add: func_b64_unfold d_def q_def Fa_def a_def X_def)
  then show ?thesis
    using b64_round_neg_sign [OF key] by simp
qed

lemma func_b64_odd: "func_b64 k (- Fa0) v0 V (- Ca) = - func_b64 k Fa0 v0 V Ca"
proof -
  let ?Fa = "b64_round (v0 * Ca)"
  let ?a = "b64_round (k * Ca)"
  let ?d = "b64_round (Fa0 - ?Fa)"
  let ?q = "b64_round (V * ?a)"
  have Fa: "b64_round (v0 * - Ca) = - ?Fa"
    using b64_round_minus [of "v0 * Ca"] by simp
  have a: "b64_round (k * - Ca) = - ?a"
    using b64_round_minus [of "k * Ca"] by simp
  have d: "b64_round (- Fa0 - - ?Fa) = - ?d"
    using b64_round_minus [of "Fa0 - ?Fa"] by simp
  have q: "b64_round (V * - ?a) = - ?q"
    using b64_round_minus [of "V * ?a"] by simp
  have "b64_round (- ?d - - ?q) = - b64_round (?d - ?q)"
    using b64_round_minus [of "?d - ?q"] by simp
  then show ?thesis
    unfolding func_b64_unfold Fa a d q .
qed

lemma scale_cancel: "0 < S \<Longrightarrow> S * (F / S * w) = F * (w::real)"
  by simp

lemma func_b64_sign_pos:
  assumes k: "0 \<le> k" and v0: "0 \<le> v0" and V: "0 \<le> V" "V \<le> 2 ^ 300"
    and S: "0 < v0 + V * k" and Fa0: "1 / 2 ^ 300 \<le> Fa0"
  shows "(Ca \<le> Fa0 / (v0 + V * k) * (1 - 1 / 2 ^ 50) \<longrightarrow> 0 < func_b64 k Fa0 v0 V Ca)
       \<and> (Fa0 / (v0 + V * k) * (1 + 1 / 2 ^ 50) \<le> Ca \<longrightarrow> func_b64 k Fa0 v0 V Ca < 0)"
proof (intro conjI impI)
  have Fa0p: "0 < Fa0"
    using Fa0 by (simp add: less_le_trans [OF _ Fa0])
  {
    assume le: "Ca \<le> Fa0 / (v0 + V * k) * (1 - 1 / 2 ^ 50)"
    show "0 < func_b64 k Fa0 v0 V Ca"
    proof (cases "0 \<le> Ca")
      case True
      have "(v0 + V * k) * Ca \<le> (v0 + V * k) * (Fa0 / (v0 + V * k) * (1 - 1 / 2 ^ 50))"
        using le S by (simp only: mult_le_cancel_left_pos)
      also have "\<dots> = Fa0 * (1 - 1 / 2 ^ 50)"
        using S by (rule scale_cancel)
      finally show ?thesis
        using k v0 V Fa0 True by (intro func_b64_positive)
    next
      case False
      have "0 < func_b64 k Fa0 v0 V 0"
        using k v0 V Fa0 Fa0p by (intro func_b64_positive) simp_all
      also have "\<dots> \<le> func_b64 k Fa0 v0 V Ca"
        using k v0 V(1) False by (intro func_b64_mono) simp_all
      finally show ?thesis .
    qed
  }
  {
    assume ge: "Fa0 / (v0 + V * k) * (1 + 1 / 2 ^ 50) \<le> Ca"
    have "0 \<le> Fa0 / (v0 + V * k) * (1 + 1 / 2 ^ 50)"
      using Fa0p S by simp
    then have c: "0 \<le> Ca"
      using ge by linarith
    have "Fa0 * (1 + 1 / 2 ^ 50) = (v0 + V * k) * (Fa0 / (v0 + V * k) * (1 + 1 / 2 ^ 50))"
      using S by (rule scale_cancel [symmetric])
    also have "\<dots> \<le> (v0 + V * k) * Ca"
      using ge S by (simp only: mult_le_cancel_left_pos)
    finally show "func_b64 k Fa0 v0 V Ca < 0"
      using k v0 V Fa0 c by (intro func_b64_negative)
  }
qed

text \<open>For a negative \<open>Fa0\<close> the same, by the symmetry of rounding.\<close>

lemma func_b64_sign:
  assumes k: "0 \<le> k" and v0: "0 \<le> v0" and V: "0 \<le> V" "V \<le> 2 ^ 300"
    and S: "0 < v0 + V * k" and Fa0: "1 / 2 ^ 300 \<le> \<bar>Fa0\<bar>"
  shows "(Ca \<le> Fa0 / (v0 + V * k) - \<bar>Fa0 / (v0 + V * k)\<bar> / 2 ^ 50 \<longrightarrow> 0 < func_b64 k Fa0 v0 V Ca)
       \<and> (Fa0 / (v0 + V * k) + \<bar>Fa0 / (v0 + V * k)\<bar> / 2 ^ 50 \<le> Ca \<longrightarrow> func_b64 k Fa0 v0 V Ca < 0)"
proof (cases "0 \<le> Fa0")
  case True
  define r where "r = Fa0 / (v0 + V * k)"
  have r: "\<bar>r\<bar> = r"
    using True S by (simp add: r_def)
  have e1: "r - r / 2 ^ 50 = r * (1 - 1 / 2 ^ 50)"
    by (simp add: algebra_simps)
  have e2: "r + r / 2 ^ 50 = r * (1 + 1 / 2 ^ 50)"
    by (simp add: algebra_simps)
  have "1 / 2 ^ 300 \<le> Fa0"
    using True Fa0 by simp
  from func_b64_sign_pos [OF k v0 V S this, of Ca, folded r_def] show ?thesis
    unfolding r_def [symmetric] r e1 e2 .
next
  case False
  define r where "r = - Fa0 / (v0 + V * k)"
  have "0 \<le> - Fa0"
    using False by simp
  then have r0: "0 \<le> r"
    unfolding r_def using S by (intro divide_nonneg_pos)
  have m: "Fa0 / (v0 + V * k) = - r"
    by (simp add: r_def)
  have e1: "- r - r / 2 ^ 50 = - (r * (1 + 1 / 2 ^ 50))"
    by (simp add: algebra_simps)
  have e2: "- r + r / 2 ^ 50 = - (r * (1 - 1 / 2 ^ 50))"
    by (simp add: algebra_simps)
  have "1 / 2 ^ 300 \<le> - Fa0"
    using False Fa0 by simp
  note pos = func_b64_sign_pos [OF k v0 V S this, of "- Ca", folded r_def, unfolded func_b64_odd]
  show ?thesis
    unfolding m abs_minus_cancel abs_of_nonneg [OF r0] e1 e2
    using pos by simp
qed

subsection \<open>What holds of the residual in binary64\<close>

text \<open>
  With a negative \<open>v0\<close> the rounded residual can increase although \<open>v0 + V * k > 0\<close>:
  \<open>k = 2\<close>, \<open>Fa0 = 2 ^ 60\<close>, \<open>v0 = - 1\<close>, \<open>V = 1\<close>, between \<open>Ca = 100\<close> and \<open>Ca = 200\<close>.
\<close>

lemma func_b64_mixed_at_100: "func_b64 2 1152921504606846976 (- 1) 1 100 = 1152921504606846720"
proof -
  have ra: "b64_mul (- 2) 100 = - 200"
  proof -
    have "b64_round ((- 2) * 100)
        = of_int (rne (((- 2) * 100) / 2 powi (7 - 52))) * 2 powi (7 - 52)"
      by (rule b64_round_eval) (simp_all add: power_int_minus)
    also have "\<dots> = - 200"
      by (simp add: rne_def Let_def power_int_minus)
    finally show ?thesis
      by (simp add: b64_mul_def)
  qed
  have Fa: "b64_mul (- 1) 100 = - 100"
  proof -
    have "b64_round ((- 1) * 100)
        = of_int (rne (((- 1) * 100) / 2 powi (6 - 52))) * 2 powi (6 - 52)"
      by (rule b64_round_eval) (simp_all add: power_int_minus)
    also have "\<dots> = - 100"
      by (simp add: rne_def Let_def power_int_minus)
    finally show ?thesis
      by (simp add: b64_mul_def)
  qed
  have d: "b64_sub 1152921504606846976 (- 100) = 1152921504606846976"
  proof -
    have "b64_round (1152921504606846976 - (- 100))
        = of_int (rne ((1152921504606846976 - (- 100)) / 2 powi (60 - 52))) * 2 powi (60 - 52)"
      by (rule b64_round_eval) (simp_all add: power_int_minus)
    also have "\<dots> = 1152921504606846976"
      by (simp add: rne_def Let_def power_int_minus)
    finally show ?thesis
      by (simp add: b64_sub_def)
  qed
  have p: "b64_mul 1 (- 200) = - 200"
  proof -
    have "b64_round (1 * (- 200))
        = of_int (rne ((1 * (- 200)) / 2 powi (7 - 52))) * 2 powi (7 - 52)"
      by (rule b64_round_eval) (simp_all add: power_int_minus)
    also have "\<dots> = - 200"
      by (simp add: rne_def Let_def power_int_minus)
    finally show ?thesis
      by (simp add: b64_mul_def)
  qed
  have s: "b64_add 1152921504606846976 (- 200) = 1152921504606846720"
  proof -
    have "b64_round (1152921504606846976 + (- 200))
        = of_int (rne ((1152921504606846976 + (- 200)) / 2 powi (59 - 52))) * 2 powi (59 - 52)"
      by (rule b64_round_eval) (simp_all add: power_int_minus)
    also have "\<dots> = 1152921504606846720"
      by (simp add: rne_def Let_def power_int_minus)
    finally show ?thesis
      by (simp add: b64_add_def)
  qed
  show ?thesis
    unfolding  func_b64_def Let_def ra Fa d p s ..
qed

lemma func_b64_mixed_at_200: "func_b64 2 1152921504606846976 (- 1) 1 200 = 1152921504606846848"
proof -
  have ra: "b64_mul (- 2) 200 = - 400"
  proof -
    have "b64_round ((- 2) * 200)
        = of_int (rne (((- 2) * 200) / 2 powi (8 - 52))) * 2 powi (8 - 52)"
      by (rule b64_round_eval) (simp_all add: power_int_minus)
    also have "\<dots> = - 400"
      by (simp add: rne_def Let_def power_int_minus)
    finally show ?thesis
      by (simp add: b64_mul_def)
  qed
  have Fa: "b64_mul (- 1) 200 = - 200"
  proof -
    have "b64_round ((- 1) * 200)
        = of_int (rne (((- 1) * 200) / 2 powi (7 - 52))) * 2 powi (7 - 52)"
      by (rule b64_round_eval) (simp_all add: power_int_minus)
    also have "\<dots> = - 200"
      by (simp add: rne_def Let_def power_int_minus)
    finally show ?thesis
      by (simp add: b64_mul_def)
  qed
  have d: "b64_sub 1152921504606846976 (- 200) = 1152921504606847232"
  proof -
    have "b64_round (1152921504606846976 - (- 200))
        = of_int (rne ((1152921504606846976 - (- 200)) / 2 powi (60 - 52))) * 2 powi (60 - 52)"
      by (rule b64_round_eval) (simp_all add: power_int_minus)
    also have "\<dots> = 1152921504606847232"
      by (simp add: rne_def Let_def power_int_minus)
    finally show ?thesis
      by (simp add: b64_sub_def)
  qed
  have p: "b64_mul 1 (- 400) = - 400"
  proof -
    have "b64_round (1 * (- 400))
        = of_int (rne ((1 * (- 400)) / 2 powi (8 - 52))) * 2 powi (8 - 52)"
      by (rule b64_round_eval) (simp_all add: power_int_minus)
    also have "\<dots> = - 400"
      by (simp add: rne_def Let_def power_int_minus)
    finally show ?thesis
      by (simp add: b64_mul_def)
  qed
  have s: "b64_add 1152921504606847232 (- 400) = 1152921504606846848"
  proof -
    have "b64_round (1152921504606847232 + (- 400))
        = of_int (rne ((1152921504606847232 + (- 400)) / 2 powi (59 - 52))) * 2 powi (59 - 52)"
      by (rule b64_round_eval) (simp_all add: power_int_minus)
    also have "\<dots> = 1152921504606846848"
      by (simp add: rne_def Let_def power_int_minus)
    finally show ?thesis
      by (simp add: b64_add_def)
  qed
  show ?thesis
    unfolding  func_b64_def Let_def ra Fa d p s ..
qed

lemma func_b64_mixed_signs:
  "(0::real) < - 1 + 1 * 2
   \<and> func_b64 2 1152921504606846976 (- 1) 1 100 < func_b64 2 1152921504606846976 (- 1) 1 200"
  by (simp add: func_b64_mixed_at_100 func_b64_mixed_at_200)

text \<open>
  Computed in binary64 the residual is not strictly decreasing and the double nearest to the
  closed form is not a root of it: with the notebook's constants, for which
  \<open>v0 + V * k > 0\<close>, the residual has the same value \<open>5 / 2 ^ 53\<close> at the neighbouring doubles
  0.2083333333333332 and 0.20833333333333323, and the value \<open>1 / 2 ^ 53\<close> at
  0.20833333333333331, the double the algebra cell computes for \<open>Fa0 / (v0 + V * k)\<close>.
\<close>

theorem func_b64_not_strictly_decreasing:
  "0 < b64_round 2.5 + b64_round 10 * b64_round 0.23
   \<and> is_b64 (7505999378950822 / 2 ^ 55) \<and> is_b64 (7505999378950823 / 2 ^ 55)
   \<and> (7505999378950822 / 2 ^ 55 :: real) < 7505999378950823 / 2 ^ 55
   \<and> func_b64_cell (7505999378950822 / 2 ^ 55) = 5 / 2 ^ 53
   \<and> func_b64_cell (7505999378950823 / 2 ^ 55) = 5 / 2 ^ 53
   \<and> func_b64_cell (7505999378950826 / 2 ^ 55) = 1 / 2 ^ 53"
proof (intro conjI)
  show "0 < b64_round 2.5 + b64_round 10 * b64_round 0.23"
    unfolding b64_k b64_v0 b64_V by simp
next
  show "is_b64 (7505999378950822 / 2 ^ 55)"
    by (rule is_b64_plateau_left)
next
  show "is_b64 (7505999378950823 / 2 ^ 55)"
    by (rule is_b64_plateau_right)
next
  show "(7505999378950822 / 2 ^ 55 :: real) < 7505999378950823 / 2 ^ 55"
    by simp
next
  show "func_b64_cell (7505999378950822 / 2 ^ 55) = 5 / 2 ^ 53"
    by (rule func_b64_cell_plateau_left)
next
  show "func_b64_cell (7505999378950823 / 2 ^ 55) = 5 / 2 ^ 53"
    by (rule func_b64_cell_plateau_right)
next
  show "func_b64_cell (7505999378950826 / 2 ^ 55) = 1 / 2 ^ 53"
    by (rule func_b64_cell_below)
qed

text \<open>
  C9. The CSTR residual \<open>func\<close>, computed in binary64 as the program computes it, is
  non-increasing in \<open>Ca\<close> whenever \<open>k\<close>, \<open>v0\<close> and \<open>V\<close> are non-negative, for every \<open>Fa0\<close>. When
  moreover \<open>v0 + V * k > 0\<close> it is positive at every \<open>Ca\<close> below the closed form
  \<open>Fa0 / (v0 + V * k)\<close> by at least the fraction \<open>2 ^ - 50\<close> of its magnitude and negative at
  every \<open>Ca\<close> above it by at least that fraction: it vanishes or changes sign only within
  relative distance \<open>2 ^ - 50\<close> of the closed form. (All magnitudes are at most \<open>2 ^ 300\<close> and
  that of \<open>Fa0\<close> at least \<open>2 ^ - 300\<close>, so that nothing overflows and the sign is not lost to
  underflow.) With the notebook's constants it is zero at no double: it is positive at
  every double up to 0.20833333333333331, where it is \<open>1 / 2 ^ 53\<close>, and negative at every
  double from 0.20833333333333334 on, where it is \<open>- 1 / 2 ^ 54\<close>, and these two doubles
  enclose the closed form \<open>5 / 24\<close>. Nothing is stated of the value a root-finder returns
  from a given guess.
\<close>

theorem func_b64_non_increasing_one_sign_change:
  fixes k Fa0 v0 V a b Ca :: real
  shows "(0 \<le> k \<and> 0 \<le> v0 \<and> 0 \<le> V \<and> a \<le> b
        \<and> in_range k \<and> in_range Fa0 \<and> in_range v0 \<and> in_range V \<and> in_range a \<and> in_range b
      \<longrightarrow> func_b64 k Fa0 v0 V b \<le> func_b64 k Fa0 v0 V a)
    \<and> (0 \<le> k \<and> 0 \<le> v0 \<and> 0 \<le> V \<and> 0 < v0 + V * k \<and> 1 / 2 ^ 300 \<le> \<bar>Fa0\<bar>
        \<and> in_range k \<and> in_range Fa0 \<and> in_range v0 \<and> in_range V \<and> in_range Ca
      \<longrightarrow> (Ca \<le> Fa0 / (v0 + V * k) - \<bar>Fa0 / (v0 + V * k)\<bar> / 2 ^ 50
          \<longrightarrow> 0 < func_b64 k Fa0 v0 V Ca)
        \<and> (Fa0 / (v0 + V * k) + \<bar>Fa0 / (v0 + V * k)\<bar> / 2 ^ 50 \<le> Ca
          \<longrightarrow> func_b64 k Fa0 v0 V Ca < 0))
    \<and> (is_b64 Ca \<and> in_range Ca
      \<longrightarrow> (Ca \<le> 7505999378950826 / 2 ^ 55 \<and> 0 < func_b64_cell Ca)
        \<or> (7505999378950827 / 2 ^ 55 \<le> Ca \<and> func_b64_cell Ca < 0))
    \<and> is_b64 (7505999378950826 / 2 ^ 55) \<and> is_b64 (7505999378950827 / 2 ^ 55)
    \<and> func_b64_cell (7505999378950826 / 2 ^ 55) = 1 / 2 ^ 53
    \<and> func_b64_cell (7505999378950827 / 2 ^ 55) = - (1 / 2 ^ 54)
    \<and> (7505999378950826 / 2 ^ 55 :: real) < 1.0 / (2.5 + 10 * 0.23)
    \<and> (1.0 / (2.5 + 10 * 0.23) :: real) < 7505999378950827 / 2 ^ 55"
proof (intro conjI)
  show "0 \<le> k \<and> 0 \<le> v0 \<and> 0 \<le> V \<and> a \<le> b
        \<and> in_range k \<and> in_range Fa0 \<and> in_range v0 \<and> in_range V \<and> in_range a \<and> in_range b
      \<longrightarrow> func_b64 k Fa0 v0 V b \<le> func_b64 k Fa0 v0 V a"
    by (simp add: func_b64_mono)
next
  show "0 \<le> k \<and> 0 \<le> v0 \<and> 0 \<le> V \<and> 0 < v0 + V * k \<and> 1 / 2 ^ 300 \<le> \<bar>Fa0\<bar>
        \<and> in_range k \<and> in_range Fa0 \<and> in_range v0 \<and> in_range V \<and> in_range Ca
      \<longrightarrow> (Ca \<le> Fa0 / (v0 + V * k) - \<bar>Fa0 / (v0 + V * k)\<bar> / 2 ^ 50
          \<longrightarrow> 0 < func_b64 k Fa0 v0 V Ca)
        \<and> (Fa0 / (v0 + V * k) + \<bar>Fa0 / (v0 + V * k)\<bar> / 2 ^ 50 \<le> Ca
          \<longrightarrow> func_b64 k Fa0 v0 V Ca < 0)"
  proof (rule impI)
    assume h: "0 \<le> k \<and> 0 \<le> v0 \<and> 0 \<le> V \<and> 0 < v0 + V * k \<and> 1 / 2 ^ 300 \<le> \<bar>Fa0\<bar>
        \<and> in_range k \<and> in_range Fa0 \<and> in_range v0 \<and> in_range V \<and> in_range Ca"
    then have "in_range V"
      by simp
    then have "\<bar>V\<bar> \<le> 2 ^ 300"
      by (simp only: in_range_def)
    then have V: "V \<le> 2 ^ 300"
      by linarith
    from h have "0 \<le> k" "0 \<le> v0" "0 \<le> V" "0 < v0 + V * k" "1 / 2 ^ 300 \<le> \<bar>Fa0\<bar>"
      by simp_all
    from func_b64_sign [OF this(1,2,3) V this(4,5), of Ca]
    show "(Ca \<le> Fa0 / (v0 + V * k) - \<bar>Fa0 / (v0 + V * k)\<bar> / 2 ^ 50
          \<longrightarrow> 0 < func_b64 k Fa0 v0 V Ca)
        \<and> (Fa0 / (v0 + V * k) + \<bar>Fa0 / (v0 + V * k)\<bar> / 2 ^ 50 \<le> Ca
          \<longrightarrow> func_b64 k Fa0 v0 V Ca < 0)" .
  qed
next
  show "is_b64 Ca \<and> in_range Ca
      \<longrightarrow> (Ca \<le> 7505999378950826 / 2 ^ 55 \<and> 0 < func_b64_cell Ca)
        \<or> (7505999378950827 / 2 ^ 55 \<le> Ca \<and> func_b64_cell Ca < 0)"
  proof (rule impI)
    assume "is_b64 Ca \<and> in_range Ca"
    then have "is_b64 Ca"
      by simp
    then show "(Ca \<le> 7505999378950826 / 2 ^ 55 \<and> 0 < func_b64_cell Ca)
        \<or> (7505999378950827 / 2 ^ 55 \<le> Ca \<and> func_b64_cell Ca < 0)"
      by (rule func_b64_cell_sign)
  qed
next
  show "is_b64 (7505999378950826 / 2 ^ 55)"
    by (rule is_b64_below)
next
  show "is_b64 (7505999378950827 / 2 ^ 55)"
    by (rule is_b64_above)
next
  show "func_b64_cell (7505999378950826 / 2 ^ 55) = 1 / 2 ^ 53"
    by (rule func_b64_cell_below)
next
  show "func_b64_cell (7505999378950827 / 2 ^ 55) = - (1 / 2 ^ 54)"
    by (rule func_b64_cell_above)
next
  show "(7505999378950826 / 2 ^ 55 :: real) < 1.0 / (2.5 + 10 * 0.23)"
    by simp
next
  show "(1.0 / (2.5 + 10 * 0.23) :: real) < 7505999378950827 / 2 ^ 55"
    by simp
qed

text \<open>
  The theorem at the notebook's constants: between \<open>Ca = 1 / 8\<close> and \<open>Ca = 1 / 4\<close>, and the sign
  at the double \<open>1 / 4\<close>, which lies above the closed form by more than the fraction
  \<open>2 ^ - 50\<close> of it.
\<close>

theorem func_b64_non_increasing_one_sign_change_witness:
  "func_b64 (8286623314361713 / 2 ^ 55) 1 (5 / 2) 10 (1 / 4)
     \<le> func_b64 (8286623314361713 / 2 ^ 55) 1 (5 / 2) 10 (1 / 8)
   \<and> func_b64 (8286623314361713 / 2 ^ 55) 1 (5 / 2) 10 (1 / 4) < 0
   \<and> is_b64 (1 / 4) \<and> in_range (1 / 4) \<and> func_b64_cell (1 / 4) < 0"
proof -
  note t = func_b64_non_increasing_one_sign_change
    [of "8286623314361713 / 2 ^ 55" "5 / 2" 10 "1 / 8" "1 / 4" 1 "1 / 4"]
  have r: "in_range (1 / 4)"
    by (simp add: in_range_def)
  have 1: "func_b64 (8286623314361713 / 2 ^ 55) 1 (5 / 2) 10 (1 / 4)
     \<le> func_b64 (8286623314361713 / 2 ^ 55) 1 (5 / 2) 10 (1 / 8)"
    using t by (simp add: in_range_def)
  have 2: "func_b64 (8286623314361713 / 2 ^ 55) 1 (5 / 2) 10 (1 / 4) < 0"
    using t by (simp add: in_range_def)
  have 3: "func_b64_cell (1 / 4) < 0"
    using t is_b64_quarter r by simp
  show ?thesis
    using 1 2 3 is_b64_quarter r by simp
qed

subsection \<open>Propagated uncertainty\<close>

lemma Cae_std_dev:
  assumes "v0 + V * nominal k \<noteq> 0"
  shows "Cae k Fa0 v0 V = Inr \<lparr>nominal = Fa0 / (v0 + V * nominal k),
           std_dev = \<bar>Fa0 * V\<bar> / (v0 + V * nominal k)\<^sup>2 * \<bar>std_dev k\<bar>\<rparr>"
proof -
  have m: "u_mul (exact V) k = \<lparr>nominal = V * nominal k, std_dev = \<bar>V * std_dev k\<bar>\<rparr>"
    by (simp add: u_mul_def exact_def)
  have a: "u_add (exact v0) (u_mul (exact V) k)
         = \<lparr>nominal = v0 + V * nominal k, std_dev = \<bar>V * std_dev k\<bar>\<rparr>"
    unfolding m by (simp add: u_add_def exact_def)
  show ?thesis
    unfolding Cae_def a using assms by (simp add: u_div_def exact_def abs_mult)
qed

lemma Cae_sensitivity:
  assumes "v0 + V * k \<noteq> 0"
  shows "((\<lambda>k. Fa0 / (v0 + V * k)) has_real_derivative - (Fa0 * V) / (v0 + V * k)\<^sup>2) (at k)"
  using assms
  by (auto intro!: derivative_eq_intros simp add: power2_eq_square)

text \<open>
  C5. With \<open>k = 0.23 \<plusminus> 0.10\<close> and \<open>Fa0 = 1.0\<close>, \<open>v0 = 2.5\<close>, \<open>V = 10\<close> exact, the first-order
  propagation through \<open>Cae = Fa0 / (v0 + V * k)\<close> gives the standard deviation
  \<open>\<bar>D\<bar> * 0.10\<close>, \<open>D\<close> the derivative of \<open>Cae\<close> in \<open>k\<close> at 0.23; that is
  \<open>0.10 * Fa0 * V / (v0 + V * k)\<^sup>2\<close>, and within 10 percent of 0.04.
\<close>

theorem cstr_uncertainty:
  "\<exists>c D. snd (cell_uncertainty g) = Inr (UFloat c)
     \<and> ((\<lambda>k. 1.0 / (2.5 + 10 * k)) has_real_derivative D) (at 0.23)
     \<and> std_dev c = \<bar>D\<bar> * 0.1
     \<and> std_dev c = 0.1 * 1.0 * 10 / (2.5 + 10 * 0.23)\<^sup>2
     \<and> within_rel 0.1 0.04 (std_dev c)"
proof -
  let ?c = "\<lparr>nominal = 1.0 / (2.5 + 10 * nominal (ufloat 0.23 0.1)),
    std_dev = \<bar>1.0 * 10\<bar> / (2.5 + 10 * nominal (ufloat 0.23 0.1))\<^sup>2 * \<bar>std_dev (ufloat 0.23 0.1)\<bar>\<rparr>"
  let ?D = "- (1.0 * 10) / (2.5 + 10 * 0.23)\<^sup>2 :: real"
  have ne: "(2.5::real) + 10 * nominal (ufloat 0.23 0.1) \<noteq> 0"
    by (simp add: ufloat_def)
  have c: "snd (cell_uncertainty g) = Inr (UFloat ?c)"
    unfolding cell_uncertainty_prints Cae_std_dev [OF ne] by (simp add: py_bind_simps)
  have d: "((\<lambda>k. 1.0 / (2.5 + 10 * k)) has_real_derivative ?D) (at 0.23)"
    by (rule Cae_sensitivity) simp
  have s1: "std_dev ?c = \<bar>?D\<bar> * 0.1"
    by (simp add: ufloat_def power2_eq_square)
  have s2: "std_dev ?c = 0.1 * 1.0 * 10 / (2.5 + 10 * 0.23)\<^sup>2"
    by (simp add: ufloat_def power2_eq_square)
  have s3: "within_rel 0.1 0.04 (std_dev ?c)"
    by (simp add: ufloat_def within_rel_def power2_eq_square)
  from c d s1 s2 s3 show ?thesis
    by blast
qed

subsection \<open>The grids of the notebook\<close>

lemma linspace_nonempty: "0 < num \<Longrightarrow> linspace start stop num \<noteq> []"
  by (simp add: linspace_def)

lemma linspace_hd: "2 \<le> num \<Longrightarrow> hd (linspace start stop num) = start"
proof -
  assume n: "2 \<le> num"
  then have "[0..<num - 1] = 0 # [Suc 0..<num - 1]"
    by (simp add: upt_conv_Cons)
  then show ?thesis
    using n by (simp add: linspace_def)
qed

lemma linspace_last: "2 \<le> num \<Longrightarrow> last (linspace start stop num) = stop"
  by (simp add: linspace_def)

lemma linspace_length: "length (linspace start stop num) = num"
  by (simp add: linspace_def)

lemma linspace_increasing:
  assumes "start < stop"
  shows "sorted_wrt (<) (linspace start stop num)"
proof (cases "2 \<le> num")
  case False
  then have "num = 0 \<or> num = 1"
    by auto
  then show ?thesis
    by (auto simp add: linspace_def)
next
  case True
  define h where "h = (stop - start) / of_nat (num - 1)"
  have h: "0 < h"
    using assms True by (simp add: h_def)
  have stop: "stop = start + of_nat (num - 1) * h"
    using True by (simp add: h_def)
  have inner: "sorted_wrt (<) (map (\<lambda>i. start + of_nat i * h) [0..<num - 1])"
    using h by (simp add: sorted_wrt_map sorted_wrt_mono_rel [of "[0..<num - 1]" "(<)"])
  have below: "\<forall>x\<in>set (map (\<lambda>i. start + of_nat i * h) [0..<num - 1]). x < stop"
  proof
    fix x
    assume "x \<in> set (map (\<lambda>i. start + of_nat i * h) [0..<num - 1])"
    then obtain i where i: "i < num - 1" and x: "x = start + of_nat i * h"
      by auto
    have "of_nat i * h < of_nat (num - 1) * h"
      using i h by simp
    then show "x < stop"
      using x stop by simp
  qed
  have "linspace start stop num = map (\<lambda>i. start + of_nat i * h) [0..<num - 1] @ [stop]"
    using True by (simp add: linspace_def h_def)
  then show ?thesis
    using inner below by (simp add: sorted_wrt_append)
qed

subsection \<open>First-order decay\<close>

text \<open>
  A function whose derivative is \<open>- c\<close> times itself everywhere is the exponential through
  any of its points: the product with \<open>exp (c * t)\<close> has derivative zero.
\<close>

lemma decay_unique:
  fixes y :: "real \<Rightarrow> real"
  assumes d: "\<And>t. (y has_real_derivative - c * y t) (at t)"
  shows "y t = y t0 * exp (- c * (t - t0))"
proof -
  define h where "h = (\<lambda>t. y t * exp (c * t))"
  have "\<forall>t. (h has_real_derivative 0) (at t)"
  proof
    fix t
    show "(h has_real_derivative 0) (at t)"
      unfolding h_def by (auto intro!: derivative_eq_intros d)
  qed
  then have "h t = h t0"
    by (rule DERIV_isconst_all)
  then have "y t * exp (c * t) = y t0 * exp (c * t0)"
    by (simp add: h_def)
  then have "y t = y t0 * exp (c * t0) * exp (- (c * t))"
    by (simp add: exp_minus field_simps)
  also have "\<dots> = y t0 * exp (- c * (t - t0))"
    by (simp add: algebra_simps flip: exp_add)
  finally show ?thesis .
qed

lemma batch_solution:
  assumes "solves_ivp (ode_batch k) y0 t0 y"
  shows "y t = y0 * exp (- k * (t - t0))"
proof -
  have "\<And>t. (y has_real_derivative - k * y t) (at t)"
    using assms by (auto simp add: solves_ivp_def ode_batch_def Let_def)
  from decay_unique [of y k t t0, OF this] assms show ?thesis
    by (simp add: solves_ivp_def)
qed

lemma pfr_solution:
  assumes "solves_ivp (ode_pfr k v0) y0 t0 y"
  shows "v0 \<noteq> 0 \<and> y t = y0 * exp (- (k / v0) * (t - t0))"
proof -
  have ne: "v0 \<noteq> 0"
    using assms by (auto simp add: solves_ivp_def ode_pfr_def split: if_splits)
  have "\<And>t. (y has_real_derivative - (k / v0) * y t) (at t)"
    using assms ne by (auto simp add: solves_ivp_def ode_pfr_def Let_def)
  from decay_unique [of y "k / v0" t t0, OF this] assms ne show ?thesis
    by (simp add: solves_ivp_def)
qed

lemma ode_interp_eq: "ode_interp k v0 = ode_pfr k v0"
  by (simp add: fun_eq_iff ode_interp_def ode_pfr_def Let_def)

lemma batch_solution_exists: "solves_ivp (ode_batch k) y0 t0 (\<lambda>t. y0 * exp (- k * (t - t0)))"
  unfolding solves_ivp_def ode_batch_def Let_def
  by (auto intro!: derivative_eq_intros)

lemma pfr_solution_exists:
  "v0 \<noteq> 0 \<Longrightarrow> solves_ivp (ode_pfr k v0) y0 t0 (\<lambda>t. y0 * exp (- (k / v0) * (t - t0)))"
  unfolding solves_ivp_def ode_pfr_def Let_def
  by (auto intro!: derivative_eq_intros)

lemma decay_trace:
  fixes c y0 t0 :: real
  assumes "0 < c" "0 < y0" "sorted_wrt (<) grid"
  shows "list_all (\<lambda>v. 0 < v) (map (\<lambda>t. y0 * exp (- c * (t - t0))) grid)
       \<and> sorted_wrt (>) (map (\<lambda>t. y0 * exp (- c * (t - t0))) grid)"
proof
  show "list_all (\<lambda>v. 0 < v) (map (\<lambda>t. y0 * exp (- c * (t - t0))) grid)"
    using assms(2) by (simp add: list_all_iff)
next
  have "\<And>s t. s < t \<Longrightarrow> y0 * exp (- c * (t - t0)) < y0 * exp (- c * (s - t0))"
    using assms(1,2) by simp
  then show "sorted_wrt (>) (map (\<lambda>t. y0 * exp (- c * (t - t0))) grid)"
    using assms(3) by (simp add: sorted_wrt_map sorted_wrt_mono_rel [of grid "(<)"])
qed

text \<open>
  The exact solution of a decay equation with a positive rate and a positive initial value,
  read off on a strictly increasing grid, is positive and strictly decreasing.
\<close>

lemma batch_trace:
  assumes "0 < k" "0 < y0" "sorted_wrt (<) grid" "exact_trace (ode_batch k) y0 grid sol"
  shows "list_all (\<lambda>v. 0 < v) sol \<and> sorted_wrt (>) sol"
proof -
  from assms(4) obtain y where y: "solves_ivp (ode_batch k) y0 (hd grid) y" and sol: "sol = map y grid"
    by (auto simp add: exact_trace_def)
  have "y = (\<lambda>t. y0 * exp (- k * (t - hd grid)))"
    using batch_solution [OF y] by (simp add: fun_eq_iff)
  then show ?thesis
    using decay_trace [OF assms(1) assms(2) assms(3), of "hd grid"] sol by simp
qed

lemma pfr_trace:
  assumes "0 < k" "0 < v0" "0 < y0" "sorted_wrt (<) grid" "exact_trace (ode_pfr k v0) y0 grid sol"
  shows "list_all (\<lambda>v. 0 < v) sol \<and> sorted_wrt (>) sol"
proof -
  from assms(5) obtain y where y: "solves_ivp (ode_pfr k v0) y0 (hd grid) y" and sol: "sol = map y grid"
    by (auto simp add: exact_trace_def)
  have c: "0 < k / v0"
    using assms(1,2) by simp
  have "y = (\<lambda>t. y0 * exp (- (k / v0) * (t - hd grid)))"
    using pfr_solution [OF y] by (simp add: fun_eq_iff)
  then show ?thesis
    using decay_trace [OF c assms(3) assms(4), of "hd grid"] sol by simp
qed

subsection \<open>The exact solutions of the integration cells\<close>

text \<open>
  What the integrator is asked to approximate. The exponential is enclosed by its Taylor
  polynomial: for \<open>\<bar>x\<bar> \<le> 1 / 2\<close> the remainder after \<open>n\<close> terms is at most \<open>2 * \<bar>x\<bar> ^ n / n!\<close>.
\<close>

lemma exp_taylor_enclosure:
  fixes x :: real
  assumes "\<bar>x\<bar> \<le> 1 / 2"
  shows "\<bar>exp x - (\<Sum>m<n. x ^ m / fact m)\<bar> \<le> 2 * \<bar>x\<bar> ^ n / fact n"
proof -
  obtain t where t: "\<bar>t\<bar> \<le> \<bar>x\<bar>" and e: "exp x = (\<Sum>m<n. x ^ m / fact m) + (exp t / fact n) * x ^ n"
    using Maclaurin_exp_le [of x n] by blast
  have "exp t \<le> 2"
    using exp_bound_half [of t] t assms by simp
  then have "\<bar>(exp t / fact n) * x ^ n\<bar> \<le> (2 / fact n) * \<bar>x\<bar> ^ n"
    by (simp add: abs_mult power_abs divide_right_mono mult_right_mono)
  then show ?thesis
    using e by simp
qed

lemma exp_minus_023: "\<bar>exp (- 0.23) - 0.79453360\<bar> \<le> (0.0000001::real)"
proof -
  have "\<bar>exp (- 0.23 :: real) - (\<Sum>m<8. (- 0.23) ^ m / fact m)\<bar> \<le> 2 * \<bar>- 0.23 :: real\<bar> ^ 8 / fact 8"
    by (rule exp_taylor_enclosure) simp
  moreover have "(\<Sum>m<8. (- 0.23 :: real) ^ m / fact m) = 400444935566236853 / 504000000000000000"
    by (simp add: lessThan_nat_numeral lessThan_Suc fact_numeral power_divide)
  ultimately show ?thesis
    by (simp add: fact_numeral power_divide abs_if split: if_splits)
qed

lemma exp_minus_23: "0.1002587 \<le> exp (- 2.3 :: real) \<and> exp (- 2.3 :: real) \<le> 0.1002590"
proof -
  have e: "exp (- 2.3 :: real) = exp (- 0.23) ^ 10"
    using exp_of_nat_mult [of 10 "- 0.23 :: real"] by simp
  have lo: "(0.7945335::real) \<le> exp (- 0.23)" and hi: "exp (- 0.23) \<le> (0.7945337::real)"
    using exp_minus_023 by (simp_all add: abs_if split: if_splits)
  have "(0.7945335::real) ^ 10 \<le> exp (- 0.23) ^ 10"
    using lo by (intro power_mono) simp_all
  moreover have "exp (- 0.23 :: real) ^ 10 \<le> 0.7945337 ^ 10"
    using hi by (intro power_mono) simp_all
  moreover have "(0.1002587::real) \<le> 0.7945335 ^ 10" and "(0.7945337::real) ^ 10 \<le> 0.1002590"
    by (simp_all add: power_divide)
  ultimately show ?thesis
    unfolding e by linarith
qed

text \<open>
  The batch cell integrates from the first to the last point of \<open>tspan\<close>, that is from 0 to
  1: the solution of its initial value problem is there \<open>Ca0 * exp (- k * 1)\<close>, within
  \<open>1e-3\<close> (relative) of 1.589.
\<close>

lemma batch_exact_value:
  assumes "solves_ivp (ode_batch 0.23) 2.0 (hd (linspace 0 1 50)) y"
  shows "y (last (linspace 0 1 50)) = 2.0 * exp (- 0.23 * 1)
       \<and> within_rel 0.001 1.589 (y (last (linspace 0 1 50)))"
proof -
  have "y (last (linspace 0 1 50)) = 2.0 * exp (- 0.23 * (last (linspace 0 1 50) - hd (linspace 0 1 50)))"
    by (rule batch_solution [OF assms])
  then have v: "y (last (linspace 0 1 50)) = 2.0 * exp (- 0.23 * 1)"
    by (simp add: linspace_hd linspace_last)
  have "within_rel 0.001 1.589 (2.0 * exp (- 0.23 * 1))"
    using exp_minus_023 by (simp add: within_rel_def abs_if split: if_splits)
  with v show ?thesis
    by simp
qed

text \<open>
  The plug flow cell integrates over \<open>Vspan = [0, 100]\<close> from \<open>Ca0 * v0\<close>: the solution
  divided by \<open>v0\<close> is \<open>Ca0 * exp (- k * 100 / v0)\<close> at 100, within \<open>1e-3\<close> (relative) of 0.3008.
\<close>

lemma pfr_exact_value:
  assumes "solves_ivp (ode_pfr 0.23 10.0) (3.0 * 10.0) (hd [0, 100]) y"
  shows "y (last [0, 100]) / 10.0 = 3.0 * exp (- 0.23 * 100 / 10.0)
       \<and> within_rel 0.001 0.3008 (y (last [0, 100]) / 10.0)"
proof -
  have "y 100 = 3.0 * 10.0 * exp (- (0.23 / 10.0) * (100 - hd [0, 100]))"
    using pfr_solution [OF assms, of 100] by simp
  then have v: "y 100 / 10.0 = 3.0 * exp (- 2.3)"
    by simp
  have "within_rel 0.001 0.3008 (3.0 * exp (- 2.3))"
    using exp_minus_23 by (simp add: within_rel_def abs_if split: if_splits)
  with v show ?thesis
    by simp
qed

text \<open>
  The two integration cells on an integrator without error, one that returns the solution
  trace: they print the analytical values.
\<close>

lemma cell_batch_on_exact_trace:
  assumes "odeint lib (\<lambda>Ca t. ode_batch 0.23 Ca t) 2.0 (linspace 0 1 50) = Inr sol"
    and "exact_trace (ode_batch 0.23) 2.0 (linspace 0 1 50) sol"
  shows "snd (cell_batch lib g) = Inr (Num (2.0 * exp (- 0.23 * 1)))"
proof -
  from assms(2) obtain y where y: "solves_ivp (ode_batch 0.23) 2.0 (hd (linspace 0 1 50)) y"
    and sol: "sol = map y (linspace 0 1 50)"
    by (auto simp add: exact_trace_def)
  have ne: "linspace 0 1 50 \<noteq> []"
    by (simp add: linspace_nonempty)
  then have "last_entry sol = Inr (y (last (linspace 0 1 50)))"
    by (simp add: last_entry_def sol last_map)
  then have "last_entry sol = Inr (2.0 * exp (- 0.23 * 1))"
    using batch_exact_value [OF y] by simp
  then show ?thesis
    using assms(1) by (simp add: cell_batch_prints py_bind_simps)
qed

lemma cell_pfr_on_exact_trace:
  assumes "odeint lib (\<lambda>Fa V. ode_pfr 0.23 10.0 Fa V) (3.0 * 10.0) [0, 100] = Inr sol"
    and "exact_trace (ode_pfr 0.23 10.0) (3.0 * 10.0) [0, 100] sol"
  shows "snd (cell_pfr lib g) = Inr (Num (3.0 * exp (- 0.23 * 100 / 10.0)))"
proof -
  from assms(2) obtain y where y: "solves_ivp (ode_pfr 0.23 10.0) (3.0 * 10.0) (hd [0, 100]) y"
    and sol: "sol = map y [0, 100]"
    by (auto simp add: exact_trace_def)
  have "last_entry sol = Inr (y (last [0, 100]))"
    by (simp add: last_entry_def sol)
  moreover have "y (last [0, 100]) / 10.0 = 3.0 * exp (- 0.23 * 100 / 10.0)"
    using pfr_exact_value [OF y] by blast
  ultimately show ?thesis
    using assms(1) by (simp add: cell_pfr_prints py_bind_simps)
qed

text \<open>
  The harder PFR example asks where the molar flow reaches \<open>Fa_Exit = 0.3 * v0\<close>. Along the
  exact solution the event function \<open>event1\<close> is zero at exactly one volume,
  \<open>v0 / k * ln (Ca0 / 0.3)\<close>, which lies within 0.003 of 100.11.
\<close>

lemma ln_10_enclosure: "2.30258 \<le> ln (10::real) \<and> ln (10::real) \<le> 2.30259"
proof -
  define u :: real where "u = 10 * exp (- 2.3)"
  have u: "1.002587 \<le> u" "u \<le> 1.002590"
    using exp_minus_23 by (simp_all add: u_def)
  have pos: "0 < u"
    using u(1) by simp
  have "ln u = ln 10 + ln (exp (- 2.3 :: real))"
    unfolding u_def by (rule ln_mult_pos) simp_all
  then have l: "ln (10::real) = 2.3 + ln u"
    by simp
  have up: "ln u \<le> u - 1"
    using pos by (rule ln_le_minus_one)
  have "ln (1 / u) \<le> 1 / u - 1"
    using pos by (intro ln_le_minus_one) simp
  then have "1 - 1 / u \<le> ln u"
    using pos by (simp add: ln_divide_pos)
  moreover have "1 / u \<le> 1 / 1.002587"
    using u(1) by (intro divide_left_mono) simp_all
  ultimately have lo: "1 - 1 / 1.002587 \<le> ln u"
    by linarith
  show ?thesis
    using l lo up u(2) by simp
qed

lemma exp_eq_iff_ln:
  fixes a b :: real
  assumes "0 < b"
  shows "exp a = b \<longleftrightarrow> a = ln b"
  using assms by (metis exp_ln ln_exp)

lemma pfr_exact_volume:
  assumes "solves_ivp (ode_pfr 0.23 10.0) (3.0 * 10.0) 0 y"
  shows "(fst (event1 (0.3 * 10.0) (y V) V) = 0 \<longleftrightarrow> V = 10.0 / 0.23 * ln (3.0 / 0.3))
       \<and> \<bar>10.0 / 0.23 * ln (3.0 / 0.3) - 100.11\<bar> \<le> (0.003::real)"
proof
  have y: "y V = 3.0 * 10.0 * exp (- (0.23 / 10.0) * (V - 0))"
    using pfr_solution [OF assms, of V] by simp
  have "fst (event1 (0.3 * 10.0) (y V) V) = 30 * exp (- (0.023 * V)) - 3"
    unfolding y by (simp add: event1_def Let_def)
  then have "fst (event1 (0.3 * 10.0) (y V) V) = 0 \<longleftrightarrow> exp (- (0.023 * V)) = 1 / 10"
    by auto
  also have "\<dots> \<longleftrightarrow> - (0.023 * V) = ln (1 / 10)"
    by (rule exp_eq_iff_ln) simp
  also have "\<dots> \<longleftrightarrow> V = 10.0 / 0.23 * ln (3.0 / 0.3)"
  proof -
    have "ln (1 / 10 :: real) = - ln 10" and "ln (3.0 / 0.3 :: real) = ln 10"
      by (simp_all add: ln_divide_pos)
    then show ?thesis
      by (auto simp add: field_simps)
  qed
  finally show "fst (event1 (0.3 * 10.0) (y V) V) = 0 \<longleftrightarrow> V = 10.0 / 0.23 * ln (3.0 / 0.3)" .
next
  have "ln (3.0 / 0.3 :: real) = ln 10"
    by simp
  then show "\<bar>10.0 / 0.23 * ln (3.0 / 0.3) - 100.11\<bar> \<le> (0.003::real)"
    using ln_10_enclosure by (simp add: abs_if field_simps)
qed

subsection \<open>The run recorded in the notebook\<close>

text \<open>
  The outputs stored with the cells, against the exact values: the batch cell printed
  1.589067228361415, the plug flow cell 0.3008 (four decimals), the event cell
  100.11242229762259 and the interpolation cell 100.11238584919839.
\<close>

lemma recorded_batch_value: "within_rel 0.000001 (2.0 * exp (- 0.23 * 1)) 1.589067228361415"
  using exp_minus_023 by (simp add: within_rel_def abs_if split: if_splits)

lemma recorded_pfr_value:
  assumes "\<bar>v - 0.3008\<bar> \<le> (0.00005::real)"
  shows "within_rel 0.001 (3.0 * exp (- 0.23 * 100 / 10.0)) v"
proof -
  have "exp (- 0.23 * 100 / 10.0 :: real) = exp (- 2.3)"
    by simp
  then show ?thesis
    using exp_minus_23 assms by (simp add: within_rel_def abs_if split: if_splits)
qed

lemma recorded_volumes:
  "\<bar>100.11242229762259 - 10.0 / 0.23 * ln (3.0 / 0.3)\<bar> \<le> (0.001::real)
   \<and> \<bar>100.11238584919839 - 10.0 / 0.23 * ln (3.0 / 0.3)\<bar> \<le> (0.001::real)
   \<and> \<bar>100.11242229762259 - 100.11238584919839\<bar> \<le> (0.01::real)"
proof -
  have "ln (3.0 / 0.3 :: real) = ln 10"
    by simp
  then show ?thesis
    using ln_10_enclosure by (simp add: abs_if field_simps)
qed


end
